theory Spec2Isabelle
  imports Complex_Main "HOL-Library.Word" "HOL-Library.Char_ord" "HOL-Library.List_Lexorder"
    "HOL-Library.Multiset"
begin

section \<open>Evaporative Cooling: the data model of EvaporativeCooling.cpp\<close>

text \<open>
  A score list is a \<^verbatim>\<open>vector<pair<double, string>>\<close> (\<^verbatim>\<open>EcScores\<close>). Scores are
  modelled as real numbers: the arithmetic of the model is exact, where the program rounds
  to IEEE doubles. Counters declared \<^verbatim>\<open>unsigned int\<close> are 32-bit words, so that
  subtraction wraps around as it does in the program.
\<close>

type_synonym EcScores = "(real \<times> string) list"
type_synonym uint = "32 word"

datatype EcAlgorithmType = EC_ALL | EC_RJ | EC_RF | EC_UNDETERMINED
  \<comment> \<open>\<^verbatim>\<open>EC_UNDETERMINED\<close> stands for every other value of the enumeration (the
      \<^verbatim>\<open>default:\<close> branches); the header that declares it is not among the sources.\<close>

datatype AnalysisType = SNP_ONLY_ANALYSIS | OTHER_ANALYSIS

text \<open>Undefined behaviour of the C++ program is a value of its own.\<close>

datatype fault = OutOfBounds
  \<comment> \<open>\<^verbatim>\<open>v[i]\<close> with \<^verbatim>\<open>i >= v.size()\<close>, or a copy reading past \<^verbatim>\<open>v.end()\<close>\<close>

text \<open>What the program writes to \<^verbatim>\<open>cerr\<close>, one constructor per message.\<close>

datatype diag =
    ERR_TooFewAttributes uint uint
  | ERR_RandomJungleFailed
  | ERR_ReliefFFailed
  | ERR_ComputeFreeEnergyFailed
  | ERR_RemoveWorstAttributeFailed
  | ERR_ImportanceOpen
  | ERR_ImportanceParse nat
  | ERR_ImportanceRead
  | WARN_RJMinMaxSame
  | WARN_RFMinMaxSame
  | ERR_ScoresUnequal nat nat
  | ERR_AlgorithmType
  | WARN_Adjusting uint uint

subsection \<open>The three comparators and \<^verbatim>\<open>std::sort\<close>\<close>

definition scoresSortAsc :: "real \<times> string \<Rightarrow> real \<times> string \<Rightarrow> bool" where
  "scoresSortAsc p1 p2 = (fst p1 < fst p2)"

definition scoresSortAscByName :: "real \<times> string \<Rightarrow> real \<times> string \<Rightarrow> bool" where
  "scoresSortAscByName p1 p2 = (snd p1 < snd p2)"

definition scoresSortDesc :: "real \<times> string \<Rightarrow> real \<times> string \<Rightarrow> bool" where
  "scoresSortDesc p1 p2 = (fst p1 > fst p2)"

text \<open>
  \<^verbatim>\<open>std::sort(first, last, comp)\<close> returns a permutation in which no element is
  smaller under the comparator than an earlier one, and leaves the order of equivalent elements
  open. The model is insertion sort with the comparator, which keeps equivalent elements
  in their input order: one of the results the library may give, and the only one when no
  two elements are equivalent.
\<close>

fun insort_by :: "('a \<Rightarrow> 'a \<Rightarrow> bool) \<Rightarrow> 'a \<Rightarrow> 'a list \<Rightarrow> 'a list" where
  "insort_by lt x [] = [x]"
| "insort_by lt x (y # ys) = (if lt y x then y # insort_by lt x ys else x # y # ys)"

definition std_sort :: "('a \<Rightarrow> 'a \<Rightarrow> bool) \<Rightarrow> 'a list \<Rightarrow> 'a list" where
  "std_sort lt xs = foldr (insort_by lt) xs []"

subsection \<open>The dataset collaborator\<close>

text \<open>
  Modelled from the spec: the class \<^verbatim>\<open>Dataset\<close> (Dataset.h of the ReliefF project) is
  not among the sources. The spec gives its boundary: the working attribute set is the
  subset of attributes still under consideration, and
  \<^verbatim>\<open>removeAttribute(name) -> success | notFound\<close> excludes one attribute by name.
  The model keeps the names of the working set; \<^verbatim>\<open>NumAttributes\<close> counts them.
\<close>

type_synonym Dataset = "string list"

definition NumAttributes :: "Dataset \<Rightarrow> uint" where
  "NumAttributes ds = of_nat (length ds)"

definition MaskRemoveAttribute :: "string \<Rightarrow> Dataset \<Rightarrow> bool \<times> Dataset" where
  "MaskRemoveAttribute a ds = (if a \<in> set ds then (True, removeAll a ds) else (False, ds))"

subsection \<open>The object and the engines\<close>

record EvaporativeCooling =
  dataset :: Dataset
  analysisType :: AnalysisType
  numTargetAttributes :: uint
  algorithmType :: EcAlgorithmType
  numToRemovePerIteration :: uint
  ecIterRemovePercent :: "uint option"
  rfNumToRemovePerIteration :: uint
  rjScores :: EcScores
  rfScores :: EcScores
  freeEnergyScores :: EcScores
  ecScores :: EcScores
  evaporatedAttributes :: EcScores
  cerr :: "diag list"

text \<open>
  \<^verbatim>\<open>ecIterRemovePercent\<close> is the entry \<^verbatim>\<open>ec-iter-remove-percent\<close> of the options map
  (\<^verbatim>\<open>None\<close> when \<^verbatim>\<open>paramsMap.count\<close> is 0).

  The engines are outside the repository. Random Jungle leaves an importance file, which
  \<^verbatim>\<open>ReadRandomJungleScores\<close> reads: \<^verbatim>\<open>None\<close> is a file that cannot be opened; a row
  is \<^verbatim>\<open>None\<close> when it does not split into four columns, and otherwise the pair
  (\<^verbatim>\<open>strtod\<close> of column 4, column 3). Relief-F returns its score list; it is called in one
  of three ways. The percentage of a count is computed in doubles
  (\<^verbatim>\<open>(int) (((double) p / 100.0) * n)\<close>) and is a parameter too.
\<close>

type_synonym importance_file = "(real \<times> string) option list option"

datatype relief_call = Iteratively | Standard | CleanSnps

record engines =
  randomJungle :: "Dataset \<Rightarrow> importance_file"
  reliefF :: "relief_call \<Rightarrow> Dataset \<Rightarrow> EcScores"
  percentOf :: "uint \<Rightarrow> uint \<Rightarrow> uint"

section \<open>The operations\<close>

subsection \<open>\<^verbatim>\<open>ReadRandomJungleScores\<close> and \<^verbatim>\<open>RunRandomJungle\<close>\<close>

text \<open>
  The read loop: every row is appended to \<^verbatim>\<open>rjScores\<close>; the first row seeds the minimum
  and the maximum, a later row lowers the minimum or else raises the maximum. A row that
  does not parse ends the function with the rows read so far (\<^verbatim>\<open>Inl\<close>, with the line
  number). The line counter is a natural number: files of \<open>2 ^ 32\<close> rows or more are outside
  the model.
\<close>

fun readImportanceRows ::
  "(real \<times> string) option list \<Rightarrow> nat \<Rightarrow> real \<Rightarrow> real \<Rightarrow> EcScores
    \<Rightarrow> (nat \<times> EcScores) + (real \<times> real \<times> EcScores)" where
  "readImportanceRows [] lineNumber minRJScore maxRJScore scores =
     Inr (minRJScore, maxRJScore, scores)"
| "readImportanceRows (None # rows) lineNumber minRJScore maxRJScore scores =
     Inl (Suc lineNumber, scores)"
| "readImportanceRows (Some (key, val) # rows) lineNumber minRJScore maxRJScore scores =
     (if Suc lineNumber = 1 then
        readImportanceRows rows (Suc lineNumber) key key (scores @ [(key, val)])
      else if key < minRJScore then
        readImportanceRows rows (Suc lineNumber) key maxRJScore (scores @ [(key, val)])
      else if key > maxRJScore then
        readImportanceRows rows (Suc lineNumber) minRJScore key (scores @ [(key, val)])
      else
        readImportanceRows rows (Suc lineNumber) minRJScore maxRJScore (scores @ [(key, val)]))"

definition ReadRandomJungleScores ::
  "importance_file \<Rightarrow> EvaporativeCooling \<Rightarrow> bool \<times> EvaporativeCooling" where
  "ReadRandomJungleScores importanceFile st =
     (case importanceFile of
        None \<Rightarrow> (False, st\<lparr>cerr := cerr st @ [ERR_ImportanceOpen]\<rparr>)
      | Some rows \<Rightarrow>
          (case readImportanceRows rows 0 0 0 [] of
             Inl (lineNumber, scores) \<Rightarrow>
               (False, st\<lparr>rjScores := scores, cerr := cerr st @ [ERR_ImportanceParse lineNumber]\<rparr>)
           | Inr (minRJScore, maxRJScore, scores) \<Rightarrow>
               (let needsNormalization = (minRJScore \<noteq> maxRJScore);
                    st1 = (if minRJScore = maxRJScore
                           then st\<lparr>cerr := cerr st @ [WARN_RJMinMaxSame]\<rparr> else st);
                    rjRange = maxRJScore - minRJScore;
                    newRJScores =
                      map (\<lambda>thisScore.
                             if needsNormalization
                             then ((fst thisScore - minRJScore) / rjRange, snd thisScore)
                             else (fst thisScore, snd thisScore)) scores
                in (True, st1\<lparr>rjScores := newRJScores\<rparr>))))"

text \<open>
  \<^verbatim>\<open>RunRandomJungle\<close> loads the data frame, runs the engine, and reads the importance file
  the engine wrote.
\<close>

definition RunRandomJungle :: "engines \<Rightarrow> EvaporativeCooling \<Rightarrow> bool \<times> EvaporativeCooling" where
  "RunRandomJungle E st =
     (let r = ReadRandomJungleScores (randomJungle E (dataset st)) st
      in if \<not> fst r then (False, (snd r)\<lparr>cerr := cerr (snd r) @ [ERR_ImportanceRead]\<rparr>)
         else (True, snd r))"

subsection \<open>\<^verbatim>\<open>RunReliefF\<close>\<close>

definition reliefCall :: "EvaporativeCooling \<Rightarrow> relief_call" where
  "reliefCall st =
     (if rfNumToRemovePerIteration st \<noteq> 0 then Iteratively
      else if analysisType st = SNP_ONLY_ANALYSIS then Standard
      else CleanSnps)"

definition minMaxRF :: "real \<Rightarrow> EcScores \<Rightarrow> real \<times> real" where
  "minMaxRF firstScore scores =
     foldl (\<lambda>(minRFScore, maxRFScore) thisScore.
              (if fst thisScore < minRFScore then fst thisScore else minRFScore,
               if fst thisScore > maxRFScore then fst thisScore else maxRFScore))
           (firstScore, firstScore) scores"

definition RunReliefF ::
  "engines \<Rightarrow> EvaporativeCooling \<Rightarrow> fault + bool \<times> EvaporativeCooling" where
  "RunReliefF E st =
     (let scores = reliefF E (reliefCall st) (dataset st);
          st1 = st\<lparr>rfScores := scores\<rparr>
      in case scores of
           [] \<Rightarrow> Inl OutOfBounds
         | firstScore # _ \<Rightarrow>
             (let mm = minMaxRF (fst firstScore) scores;
                  minRFScore = fst mm;
                  maxRFScore = snd mm
              in if minRFScore = maxRFScore
                 then Inr (True, st1\<lparr>cerr := cerr st1 @ [WARN_RFMinMaxSame]\<rparr>)
                 else
                   (let rfRange = maxRFScore - minRFScore;
                        newRFScores =
                          map (\<lambda>thisScore. ((fst thisScore - minRFScore) / rfRange, snd thisScore))
                            scores
                    in Inr (True, st1\<lparr>rfScores := newRFScores\<rparr>))))"

subsection \<open>\<^verbatim>\<open>ComputeFreeEnergy\<close>\<close>

definition ComputeFreeEnergy :: "real \<Rightarrow> EvaporativeCooling \<Rightarrow> bool \<times> EvaporativeCooling" where
  "ComputeFreeEnergy temperature st =
     (if algorithmType st = EC_ALL \<and> length (rjScores st) \<noteq> length (rfScores st) then
        (False, st\<lparr>cerr := cerr st
                   @ [ERR_ScoresUnequal (length (rjScores st)) (length (rfScores st))]\<rparr>)
      else
        (case algorithmType st of
           EC_ALL \<Rightarrow>
             (let rj = std_sort scoresSortAscByName (rjScores st);
                  rf = std_sort scoresSortAscByName (rfScores st)
              in (True, st\<lparr>rjScores := rj, rfScores := rf,
                          freeEnergyScores :=
                            map (\<lambda>(rjIt, rfIt). (fst rfIt + temperature * fst rjIt, snd rjIt))
                              (zip rj rf)\<rparr>))
         | EC_RJ \<Rightarrow>
             (True, st\<lparr>freeEnergyScores := map (\<lambda>rjIt. (fst rjIt, snd rjIt)) (rjScores st)\<rparr>)
         | EC_RF \<Rightarrow>
             (True, st\<lparr>freeEnergyScores := map (\<lambda>rfIt. (fst rfIt, snd rfIt)) (rfScores st)\<rparr>)
         | EC_UNDETERMINED \<Rightarrow>
             (False, st\<lparr>freeEnergyScores := [], cerr := cerr st @ [ERR_AlgorithmType]\<rparr>)))"

subsection \<open>\<^verbatim>\<open>RemoveWorstAttributes\<close>\<close>

text \<open>The adjusted count of lines 952 to 960; the subtractions are unsigned.\<close>

definition numToRemoveAdj :: "uint \<Rightarrow> EvaporativeCooling \<Rightarrow> uint" where
  "numToRemoveAdj numToRemove st =
     (let numAttr = NumAttributes (dataset st)
      in if numAttr - numToRemove < numTargetAttributes st
         then numAttr - numTargetAttributes st
         else numToRemove)"

text \<open>
  The loop of lines 963 to 974, \<open>k\<close> rounds from index \<open>i\<close>: the entry at \<open>i\<close> is appended
  to the evaporated attributes and its name is masked out of the dataset; the result of
  \<^verbatim>\<open>MaskRemoveAttribute\<close> is dropped.
\<close>

fun removeWorstFrom :: "nat \<Rightarrow> nat \<Rightarrow> EvaporativeCooling \<Rightarrow> fault + EvaporativeCooling" where
  "removeWorstFrom 0 i st = Inr st"
| "removeWorstFrom (Suc k) i st =
     (if i < length (freeEnergyScores st) then
        (let worst = freeEnergyScores st ! i
         in removeWorstFrom k (Suc i)
              (st\<lparr>evaporatedAttributes := evaporatedAttributes st @ [worst],
                  dataset := snd (MaskRemoveAttribute (snd worst) (dataset st))\<rparr>))
      else Inl OutOfBounds)"

definition RemoveWorstAttributes ::
  "uint \<Rightarrow> EvaporativeCooling \<Rightarrow> fault + bool \<times> EvaporativeCooling" where
  "RemoveWorstAttributes numToRemove st =
     (let numAttr = NumAttributes (dataset st);
          st1 = (if numAttr - numToRemove < numTargetAttributes st
                 then st\<lparr>cerr := cerr st @ [WARN_Adjusting numToRemove (numTargetAttributes st)]\<rparr>
                 else st);
          st2 = st1\<lparr>freeEnergyScores := std_sort scoresSortAsc (freeEnergyScores st1)\<rparr>
      in case removeWorstFrom (unat (numToRemoveAdj numToRemove st)) 0 st2 of
           Inl f \<Rightarrow> Inl f
         | Inr st3 \<Rightarrow> Inr (True, st3))"

subsection \<open>\<^verbatim>\<open>ComputeECScores\<close>\<close>

text \<open>
  One pass of the \<^verbatim>\<open>while\<close> loop ends in \<^verbatim>\<open>return false\<close>, in \<^verbatim>\<open>break\<close>, or with
  the next value of \<^verbatim>\<open>numWorkingAttributes\<close>. The iteration counter is only printed and
  is left out.
\<close>

datatype loop_ctl =
    ReturnFalse EvaporativeCooling
  | Break EvaporativeCooling
  | Next uint EvaporativeCooling

text \<open>The state an outcome carries.\<close>

fun ctl_state :: "loop_ctl \<Rightarrow> EvaporativeCooling" where
  "ctl_state (ReturnFalse st) = st"
| "ctl_state (Break st) = st"
| "ctl_state (Next w st) = st"

text \<open>Lines 235 to 272: the engines and the free energy, with temperature 1.0.\<close>

definition ecScoring :: "engines \<Rightarrow> EvaporativeCooling \<Rightarrow> fault + bool \<times> EvaporativeCooling" where
  "ecScoring E st =
     (let r1 = (if algorithmType st = EC_ALL \<or> algorithmType st = EC_RJ
                then RunRandomJungle E st else (True, st))
      in if \<not> fst r1
         then Inr (False, (snd r1)\<lparr>cerr := cerr (snd r1) @ [ERR_RandomJungleFailed]\<rparr>)
         else
           (case (if algorithmType st = EC_ALL \<or> algorithmType st = EC_RF
                  then RunReliefF E (snd r1) else Inr (True, snd r1)) of
              Inl f \<Rightarrow> Inl f
            | Inr r2 \<Rightarrow>
                if \<not> fst r2
                then Inr (False, (snd r2)\<lparr>cerr := cerr (snd r2) @ [ERR_ReliefFFailed]\<rparr>)
                else
                  (let r3 = ComputeFreeEnergy 1 (snd r2)
                   in if \<not> fst r3
                      then Inr (False,
                             (snd r3)\<lparr>cerr := cerr (snd r3) @ [ERR_ComputeFreeEnergyFailed]\<rparr>)
                      else Inr (True, snd r3))))"

text \<open>
  Lines 280 to 286: the count requested for this round, the fixed count or the percentage
  of the dataset's current number of attributes.
\<close>

definition requestedNumToRemove :: "engines \<Rightarrow> EvaporativeCooling \<Rightarrow> uint" where
  "requestedNumToRemove E st =
     (case ecIterRemovePercent st of
        None \<Rightarrow> numToRemovePerIteration st
      | Some iterPercentToRemove \<Rightarrow>
          percentOf E iterPercentToRemove (NumAttributes (dataset st)))"

text \<open>Lines 287 to 289: the count after the adjustment; the subtractions are unsigned.\<close>

definition roundNumToRemove :: "engines \<Rightarrow> uint \<Rightarrow> EvaporativeCooling \<Rightarrow> uint" where
  "roundNumToRemove E numWorkingAttributes st =
     (let numToRemove = requestedNumToRemove E st
      in if numWorkingAttributes - numToRemove < numTargetAttributes st
         then numWorkingAttributes - numTargetAttributes st
         else numToRemove)"

text \<open>Lines 290 to 304.\<close>

definition ecRemoval :: "engines \<Rightarrow> uint \<Rightarrow> EvaporativeCooling \<Rightarrow> fault + loop_ctl" where
  "ecRemoval E numWorkingAttributes st =
     (let numToRemove = roundNumToRemove E numWorkingAttributes st
      in if numToRemove < 1 then Inr (Break st)
         else
           (case RemoveWorstAttributes numToRemove st of
              Inl f \<Rightarrow> Inl f
            | Inr r \<Rightarrow>
                if \<not> fst r
                then Inr (ReturnFalse
                       ((snd r)\<lparr>cerr := cerr (snd r) @ [ERR_RemoveWorstAttributeFailed]\<rparr>))
                else Inr (Next (numWorkingAttributes - numToRemove) (snd r))))"

definition ecIteration :: "engines \<Rightarrow> uint \<Rightarrow> EvaporativeCooling \<Rightarrow> fault + loop_ctl" where
  "ecIteration E numWorkingAttributes st =
     (case ecScoring E st of
        Inl f \<Rightarrow> Inl f
      | Inr r \<Rightarrow>
          if \<not> fst r then Inr (ReturnFalse (snd r))
          else ecRemoval E numWorkingAttributes (snd r))"

text \<open>
  The \<^verbatim>\<open>while\<close> loop, with fuel: \<^verbatim>\<open>None\<close> when the fuel runs out before the loop ends.
  The result is the value the function would return at this point (\<^verbatim>\<open>False\<close> for
  \<^verbatim>\<open>return false\<close>, \<^verbatim>\<open>True\<close> when the loop is left), the working count, and the state.
\<close>

fun ecLoop ::
  "nat \<Rightarrow> engines \<Rightarrow> uint \<Rightarrow> EvaporativeCooling
    \<Rightarrow> (fault + bool \<times> uint \<times> EvaporativeCooling) option" where
  "ecLoop 0 E numWorkingAttributes st = None"
| "ecLoop (Suc fuel) E numWorkingAttributes st =
     (if numWorkingAttributes > numTargetAttributes st then
        (case ecIteration E numWorkingAttributes st of
           Inl f \<Rightarrow> Some (Inl f)
         | Inr (ReturnFalse st') \<Rightarrow> Some (Inr (False, numWorkingAttributes, st'))
         | Inr (Break st') \<Rightarrow> Some (Inr (True, numWorkingAttributes, st'))
         | Inr (Next numWorkingAttributes' st') \<Rightarrow> ecLoop fuel E numWorkingAttributes' st')
      else Some (Inr (True, numWorkingAttributes, st)))"

text \<open>
  Lines 311 to 315: the free energy scores are sorted descending, \<^verbatim>\<open>ecScores\<close> is resized
  to the target, and that many entries are copied from the front of the sorted list (a read
  past its end when it is shorter).
\<close>

definition ecFinish :: "EvaporativeCooling \<Rightarrow> fault + bool \<times> EvaporativeCooling" where
  "ecFinish st =
     (let sorted = std_sort scoresSortDesc (freeEnergyScores st)
      in if length sorted < unat (numTargetAttributes st) then Inl OutOfBounds
         else Inr (True, st\<lparr>freeEnergyScores := sorted,
                            ecScores := take (unat (numTargetAttributes st)) sorted\<rparr>))"

definition ComputeECScores ::
  "nat \<Rightarrow> engines \<Rightarrow> EvaporativeCooling \<Rightarrow> (fault + bool \<times> EvaporativeCooling) option" where
  "ComputeECScores fuel E st =
     (let numWorkingAttributes = NumAttributes (dataset st)
      in if numWorkingAttributes \<le> numTargetAttributes st then
           Some (Inr (False,
             st\<lparr>cerr := cerr st
                  @ [ERR_TooFewAttributes numWorkingAttributes (numTargetAttributes st)]\<rparr>))
         else
           (case ecLoop fuel E numWorkingAttributes st of
              None \<Rightarrow> None
            | Some (Inl f) \<Rightarrow> Some (Inl f)
            | Some (Inr r) \<Rightarrow>
                if \<not> fst r then Some (Inr (False, snd (snd r)))
                else Some (ecFinish (snd (snd r)))))"

subsection \<open>The constructor\<close>

text \<open>
  The entries of the options map that the constructor reads for the algorithm (thread
  counts, tree count and file prefix do not reach the control flow below). An entry with no
  default is \<^verbatim>\<open>None\<close> when \<^verbatim>\<open>paramsMap.count\<close> is 0.
\<close>

record options =
  ec_num_target :: uint
  ec_algorithm_steps :: "string option"
  ec_iter_remove_n :: "uint option"
  ec_iter_remove_percent :: "uint option"
  iter_remove_n :: "uint option"
  iter_remove_percent :: "uint option"

text \<open>
  \<^verbatim>\<open>exit(code)\<close> is \<^verbatim>\<open>Inl code\<close>. \<^verbatim>\<open>to_upper\<close> (StringUtils.h) and the percentage
  in doubles are parameters. \<open>algorithmType0\<close> and \<open>numToRemove0\<close> are the values the two
  members hold when the constructor assigns none (they are not initialised).
  \<^verbatim>\<open>InitializeRandomJungle\<close> returns \<^verbatim>\<open>true\<close> on every path, so its \<^verbatim>\<open>exit(1)\<close> is
  never taken. The score lists start empty.
\<close>

definition parseAlgorithmSteps ::
  "(string \<Rightarrow> string) \<Rightarrow> EcAlgorithmType \<Rightarrow> string option \<Rightarrow> int + EcAlgorithmType" where
  "parseAlgorithmSteps to_upper algorithmType0 steps =
     (case steps of
        None \<Rightarrow> Inr algorithmType0
      | Some s \<Rightarrow>
          (let ecAlgParam = to_upper s
           in if ecAlgParam = ''ALL'' then Inr EC_ALL
              else if ecAlgParam = ''RJ'' then Inr EC_RJ
              else if ecAlgParam = ''RF'' then Inr EC_RF
              else Inl 1))"

definition EvaporativeCooling_init ::
  "(string \<Rightarrow> string) \<Rightarrow> (uint \<Rightarrow> uint \<Rightarrow> uint) \<Rightarrow> EcAlgorithmType \<Rightarrow> uint
    \<Rightarrow> Dataset option \<Rightarrow> options \<Rightarrow> AnalysisType \<Rightarrow> int + EvaporativeCooling" where
  "EvaporativeCooling_init to_upper percent algorithmType0 numToRemove0 ds vm anaType =
     (case ds of
        None \<Rightarrow> Inl (- 1)
      | Some d \<Rightarrow>
          if ec_num_target vm < 1 then Inl (- 1)
          else if ec_num_target vm > NumAttributes d then Inl (- 1)
          else
            (case parseAlgorithmSteps to_upper algorithmType0 (ec_algorithm_steps vm) of
               Inl code \<Rightarrow> Inl code
             | Inr alg \<Rightarrow>
                 Inr \<lparr>dataset = d,
                      analysisType = anaType,
                      numTargetAttributes = ec_num_target vm,
                      algorithmType = alg,
                      numToRemovePerIteration =
                        (case ec_iter_remove_percent vm of
                           Some iterPercentToRemove \<Rightarrow> percent iterPercentToRemove (NumAttributes d)
                         | None \<Rightarrow>
                             (case ec_iter_remove_n vm of Some n \<Rightarrow> n | None \<Rightarrow> numToRemove0)),
                      ecIterRemovePercent = ec_iter_remove_percent vm,
                      rfNumToRemovePerIteration =
                        (case iter_remove_percent vm of
                           Some iterPercentToRemove \<Rightarrow> percent iterPercentToRemove (NumAttributes d)
                         | None \<Rightarrow> (case iter_remove_n vm of Some n \<Rightarrow> n | None \<Rightarrow> 0)),
                      rjScores = [], rfScores = [], freeEnergyScores = [], ecScores = [],
                      evaporatedAttributes = [], cerr = []\<rparr>))"

section \<open>Example inputs\<close>

text \<open>
  A pruning round whose fused list names an attribute (\<open>zz\<close>) that the dataset does not
  hold.
\<close>

definition prune_example :: EvaporativeCooling where
  "prune_example =
     \<lparr>dataset = [''a'', ''b'', ''c''], analysisType = SNP_ONLY_ANALYSIS,
      numTargetAttributes = 1, algorithmType = EC_ALL, numToRemovePerIteration = 1,
      ecIterRemovePercent = None, rfNumToRemovePerIteration = 0,
      rjScores = [], rfScores = [],
      freeEnergyScores = [(3, ''a''), (1, ''zz''), (2, ''c'')],
      ecScores = [], evaporatedAttributes = [], cerr = []\<rparr>"

text \<open>
  A fresh object: the members the constructor sets, with empty score lists. Engines that
  return one score per attribute of the dataset, read from two tables.
\<close>

definition fresh_object :: "Dataset \<Rightarrow> EcAlgorithmType \<Rightarrow> uint \<Rightarrow> uint \<Rightarrow> EvaporativeCooling" where
  "fresh_object ds alg target n =
     \<lparr>dataset = ds, analysisType = SNP_ONLY_ANALYSIS, numTargetAttributes = target,
      algorithmType = alg, numToRemovePerIteration = n, ecIterRemovePercent = None,
      rfNumToRemovePerIteration = 0, rjScores = [], rfScores = [], freeEnergyScores = [],
      ecScores = [], evaporatedAttributes = [], cerr = []\<rparr>"

definition table_engines :: "(string \<Rightarrow> real) \<Rightarrow> (string \<Rightarrow> real) \<Rightarrow> engines" where
  "table_engines mainEffect interaction =
     \<lparr>randomJungle = (\<lambda>ds. Some (map (\<lambda>a. Some (mainEffect a, a)) ds)),
      reliefF = (\<lambda>call ds. map (\<lambda>a. (interaction a, a)) ds),
      percentOf = (\<lambda>p n. (p * n) div 100)\<rparr>"

definition name_length :: "string \<Rightarrow> real" where
  "name_length a = real (length a)"

definition five_attributes :: Dataset where
  "five_attributes = [''a'', ''bb'', ''ccc'', ''dddd'', ''eeeee'']"

text \<open>A Relief-F that leaves out the first attribute: five scores against four.\<close>

definition short_relief_engines :: engines where
  "short_relief_engines =
     (table_engines name_length name_length)
       \<lparr>reliefF := (\<lambda>call ds. map (\<lambda>a. (name_length a, a)) (tl ds))\<rparr>"

text \<open>Ten attributes with their fused scores, target 7 (the pruning example of the spec).\<close>

definition ten_fused :: EvaporativeCooling where
  "ten_fused =
     (fresh_object [''a'', ''b'', ''c'', ''d'', ''e'', ''f'', ''g'', ''h'', ''i'', ''j''] EC_ALL 7 5)
       \<lparr>freeEnergyScores :=
          [(9/10, ''a''), (1/10, ''b''), (8/10, ''c''), (3/10, ''d''), (7/10, ''e''),
           (2/10, ''f''), (6/10, ''g''), (4/10, ''h''), (5/10, ''i''), (1, ''j'')]\<rparr>"

text \<open>Options whose target equals, and exceeds, the two attributes of a dataset.\<close>

definition equal_target_options :: options where
  "equal_target_options =
     \<lparr>ec_num_target = 2, ec_algorithm_steps = Some ''ALL'', ec_iter_remove_n = Some 1,
      ec_iter_remove_percent = None, iter_remove_n = None, iter_remove_percent = None\<rparr>"

definition large_target_options :: options where
  "large_target_options = equal_target_options\<lparr>ec_num_target := 3\<rparr>"

text \<open>
  The fusion example of the spec, and two lists of equal size that do not name the same
  attributes.
\<close>

definition fusion_example :: EvaporativeCooling where
  "fusion_example =
     (fresh_object [''x'', ''y''] EC_ALL 1 1)
       \<lparr>rjScores := [(2/10, ''x''), (8/10, ''y'')],
        rfScores := [(5/10, ''x''), (1/10, ''y'')]\<rparr>"

definition fusion_mismatch :: EvaporativeCooling where
  "fusion_mismatch =
     (fresh_object [''x'', ''y''] EC_ALL 1 1)
       \<lparr>rjScores := [(2/10, ''x''), (8/10, ''y'')],
        rfScores := [(5/10, ''y''), (1/10, ''z'')]\<rparr>"

text \<open>
  Five attributes, target 1, three removed per round: the state after the first round.
  With target 2, the results of a run that reaches the target, and of one that removes
  nothing.
\<close>

definition after_first_round :: EvaporativeCooling where
  "after_first_round =
     \<lparr>dataset = [''dddd'', ''eeeee''], analysisType = SNP_ONLY_ANALYSIS,
      numTargetAttributes = 1, algorithmType = EC_ALL,
      numToRemovePerIteration = 3, ecIterRemovePercent = None,
      rfNumToRemovePerIteration = 0,
      rjScores = [(0, ''a''), (1/4, ''bb''), (1/2, ''ccc''), (3/4, ''dddd''), (1, ''eeeee'')],
      rfScores = [(0, ''a''), (1/4, ''bb''), (1/2, ''ccc''), (3/4, ''dddd''), (1, ''eeeee'')],
      freeEnergyScores =
        [(0, ''a''), (1/2, ''bb''), (1, ''ccc''), (3/2, ''dddd''), (2, ''eeeee'')],
      ecScores = [],
      evaporatedAttributes = [(0, ''a''), (1/2, ''bb''), (1, ''ccc'')],
      cerr = []\<rparr>"

definition converged_result :: EvaporativeCooling where
  "converged_result =
     \<lparr>dataset = [''dddd'', ''eeeee''], analysisType = SNP_ONLY_ANALYSIS,
      numTargetAttributes = 2, algorithmType = EC_ALL,
      numToRemovePerIteration = 3, ecIterRemovePercent = None,
      rfNumToRemovePerIteration = 0,
      rjScores = [(0, ''a''), (1/4, ''bb''), (1/2, ''ccc''), (3/4, ''dddd''), (1, ''eeeee'')],
      rfScores = [(0, ''a''), (1/4, ''bb''), (1/2, ''ccc''), (3/4, ''dddd''), (1, ''eeeee'')],
      freeEnergyScores =
        [(2, ''eeeee''), (3/2, ''dddd''), (1, ''ccc''), (1/2, ''bb''), (0, ''a'')],
      ecScores = [(2, ''eeeee''), (3/2, ''dddd'')],
      evaporatedAttributes = [(0, ''a''), (1/2, ''bb''), (1, ''ccc'')],
      cerr = []\<rparr>"

definition stalled_result :: EvaporativeCooling where
  "stalled_result =
     \<lparr>dataset = [''a'', ''bb'', ''ccc'', ''dddd'', ''eeeee''],
      analysisType = SNP_ONLY_ANALYSIS, numTargetAttributes = 2,
      algorithmType = EC_ALL, numToRemovePerIteration = 0,
      ecIterRemovePercent = None, rfNumToRemovePerIteration = 0,
      rjScores = [(0, ''a''), (1/4, ''bb''), (1/2, ''ccc''), (3/4, ''dddd''), (1, ''eeeee'')],
      rfScores = [(0, ''a''), (1/4, ''bb''), (1/2, ''ccc''), (3/4, ''dddd''), (1, ''eeeee'')],
      freeEnergyScores =
        [(2, ''eeeee''), (3/2, ''dddd''), (1, ''ccc''), (1/2, ''bb''), (0, ''a'')],
      ecScores = [(2, ''eeeee''), (3/2, ''dddd'')],
      evaporatedAttributes = [], cerr = []\<rparr>"

section \<open>Properties\<close>

subsection \<open>Sorting\<close>

lemma insort_by_key: "insort_by (\<lambda>a b. f a < f b) x ys = insort_key f x ys"
  for f :: "'a \<Rightarrow> 'b::linorder"
  by (induction ys) auto

lemma std_sort_key: "std_sort (\<lambda>a b. f a < f b) xs = sort_key f xs"
  for f :: "'a \<Rightarrow> 'b::linorder"
proof -
  have "insort_by (\<lambda>a b. f a < f b) = insort_key f"
    by (intro ext) (rule insort_by_key)
  then show ?thesis
    by (simp add: std_sort_def sort_key_def)
qed

lemma std_sort_asc: "std_sort scoresSortAsc xs = sort_key fst xs"
  using std_sort_key[of fst xs] by (simp add: scoresSortAsc_def[abs_def])

lemma std_sort_name: "std_sort scoresSortAscByName xs = sort_key snd xs"
  using std_sort_key[of snd xs] by (simp add: scoresSortAscByName_def[abs_def])

lemma std_sort_desc: "std_sort scoresSortDesc xs = sort_key (\<lambda>p. - fst p) xs"
  using std_sort_key[of "\<lambda>p. - fst p" xs] by (simp add: scoresSortDesc_def[abs_def])

lemma length_std_sort_asc: "length (std_sort scoresSortAsc xs) = length xs"
  by (simp add: std_sort_asc)

subsection \<open>Pruning never reports failure\<close>

lemma removeWorstFrom_ok:
  "i + k \<le> length (freeEnergyScores st) \<Longrightarrow> \<exists>st'. removeWorstFrom k i st = Inr st'"
proof (induction k arbitrary: i st)
  case 0
  then show ?case by simp
next
  case (Suc k)
  let ?st1 = "st\<lparr>evaporatedAttributes := evaporatedAttributes st @ [freeEnergyScores st ! i],
                  dataset := snd (MaskRemoveAttribute (snd (freeEnergyScores st ! i)) (dataset st))\<rparr>"
  have "Suc i + k \<le> length (freeEnergyScores ?st1)" using Suc.prems by simp
  from Suc.IH[OF this] obtain st' where "removeWorstFrom k (Suc i) ?st1 = Inr st'" by blast
  moreover have "i < length (freeEnergyScores st)" using Suc.prems by simp
  ultimately show ?case by (simp add: Let_def)
qed

lemma RemoveWorstAttributes_never_false:
  "RemoveWorstAttributes n st = Inr (b, st') \<Longrightarrow> b"
  by (auto simp: RemoveWorstAttributes_def Let_def split: sum.splits)

lemma ecRemoval_never_false: "ecRemoval E w st \<noteq> Inr (ReturnFalse s)"
  by (auto simp: ecRemoval_def Let_def split: sum.splits dest: RemoveWorstAttributes_never_false)

text \<open>
  C10. Whenever the fused list holds at least the adjusted number of entries,
  \<^verbatim>\<open>RemoveWorstAttributes\<close> returns \<^verbatim>\<open>true\<close>, whatever \<^verbatim>\<open>MaskRemoveAttribute\<close>
  answers; it returns \<^verbatim>\<open>false\<close> on no input at all, so the removal step of the loop never
  takes its \<^verbatim>\<open>return false\<close> branch.
\<close>

theorem RemoveWorstAttributes_returns_true:
  "(unat (numToRemoveAdj numToRemove st) \<le> length (freeEnergyScores st)
      \<longrightarrow> (\<exists>st'. RemoveWorstAttributes numToRemove st = Inr (True, st')))
   \<and> (\<forall>b st'. RemoveWorstAttributes numToRemove st = Inr (b, st') \<longrightarrow> b)
   \<and> (\<forall>E w s. ecRemoval E w st \<noteq> Inr (ReturnFalse s))"
proof (intro conjI impI allI)
  assume len: "unat (numToRemoveAdj numToRemove st) \<le> length (freeEnergyScores st)"
  define st1 where "st1 = (if NumAttributes (dataset st) - numToRemove < numTargetAttributes st
                 then st\<lparr>cerr := cerr st @ [WARN_Adjusting numToRemove (numTargetAttributes st)]\<rparr>
                 else st)"
  define st2 where "st2 = st1\<lparr>freeEnergyScores := std_sort scoresSortAsc (freeEnergyScores st1)\<rparr>"
  have "length (freeEnergyScores st2) = length (freeEnergyScores st)"
    by (simp add: st2_def st1_def length_std_sort_asc)
  then have "0 + unat (numToRemoveAdj numToRemove st) \<le> length (freeEnergyScores st2)"
    using len by simp
  from removeWorstFrom_ok[OF this] obtain st3
    where "removeWorstFrom (unat (numToRemoveAdj numToRemove st)) 0 st2 = Inr st3" by blast
  then show "\<exists>st'. RemoveWorstAttributes numToRemove st = Inr (True, st')"
    by (simp add: RemoveWorstAttributes_def Let_def st1_def st2_def)
next
  fix b st'
  assume "RemoveWorstAttributes numToRemove st = Inr (b, st')"
  then show b by (rule RemoveWorstAttributes_never_false)
next
  fix E w s
  show "ecRemoval E w st \<noteq> Inr (ReturnFalse s)" by (rule ecRemoval_never_false)
qed

theorem RemoveWorstAttributes_returns_true_witness:
  "unat (numToRemoveAdj 1 prune_example) \<le> length (freeEnergyScores prune_example)
   \<and> MaskRemoveAttribute ''zz'' (dataset prune_example) = (False, dataset prune_example)
   \<and> RemoveWorstAttributes 1 prune_example =
       Inr (True, prune_example\<lparr>freeEnergyScores := [(1, ''zz''), (2, ''c''), (3, ''a'')],
                                evaporatedAttributes := [(1, ''zz'')]\<rparr>)"
proof -
  have h: "unat (numToRemoveAdj 1 prune_example) \<le> length (freeEnergyScores prune_example)"
    by code_simp
  have m: "MaskRemoveAttribute ''zz'' (dataset prune_example) = (False, dataset prune_example)"
    by code_simp
  from RemoveWorstAttributes_returns_true[of 1 prune_example] h
  obtain st' where r: "RemoveWorstAttributes 1 prune_example = Inr (True, st')" by blast
  have "RemoveWorstAttributes 1 prune_example =
       Inr (True, prune_example\<lparr>freeEnergyScores := [(1, ''zz''), (2, ''c''), (3, ''a'')],
                                evaporatedAttributes := [(1, ''zz'')]\<rparr>)"
    by code_simp
  with r h m show ?thesis by simp
qed

subsection \<open>Normalization\<close>

text \<open>
  Both minimum and maximum loops compute the least and the greatest score of a non-empty
  list.
\<close>

lemma readImportanceRows_later:
  "mn \<le> mx \<Longrightarrow>
   readImportanceRows (map Some xs) (Suc n) mn mx acc =
     Inr (fold min (map fst xs) mn, fold max (map fst xs) mx, acc @ xs)"
proof (induction xs arbitrary: n mn mx acc)
  case Nil
  then show ?case by simp
next
  case (Cons x xs)
  obtain k v where x: "x = (k, v)" by (cases x)
  show ?case
  proof (cases "k < mn")
    case True
    then have "k \<le> mx" using Cons.prems by simp
    from Cons.IH[OF this] True Cons.prems show ?thesis
      by (simp add: x min_def max_def)
  next
    case False
    show ?thesis
    proof (cases "k > mx")
      case True
      have "mn \<le> k" using False by simp
      from Cons.IH[OF this] True False show ?thesis
        by (simp add: x min_def max_def)
    next
      case nb: False
      from Cons.IH[OF Cons.prems] False nb show ?thesis
        by (simp add: x min_def max_def)
    qed
  qed
qed

lemma Min_scores_fold: "Min (fst ` set (x # xs)) = fold min (map fst xs) (fst x)"
  using Min.set_eq_fold[of "fst x" "map fst xs"] by simp

lemma Max_scores_fold: "Max (fst ` set (x # xs)) = fold max (map fst xs) (fst x)"
  using Max.set_eq_fold[of "fst x" "map fst xs"] by simp

lemma readImportanceRows_all:
  "xs \<noteq> [] \<Longrightarrow>
   readImportanceRows (map Some xs) 0 0 0 [] =
     Inr (Min (fst ` set xs), Max (fst ` set xs), xs)"
proof (cases xs)
  case Nil
  assume "xs \<noteq> []"
  with Nil show ?thesis by simp
next
  case (Cons x ys)
  obtain k v where x: "x = (k, v)" by (cases x)
  show ?thesis
    using readImportanceRows_later[of k k ys 0 "[(k, v)]"]
    unfolding Cons Min_scores_fold Max_scores_fold
    by (simp add: x)
qed

lemma minMaxRF_fold:
  "foldl (\<lambda>(minRFScore, maxRFScore) thisScore.
              (if fst thisScore < minRFScore then fst thisScore else minRFScore,
               if fst thisScore > maxRFScore then fst thisScore else maxRFScore))
           (mn, mx) xs
   = (fold min (map fst xs) mn, fold max (map fst xs) mx)"
  for mn mx :: real
proof (induction xs arbitrary: mn mx)
  case Nil
  then show ?case by simp
next
  case (Cons x xs)
  have a: "(if fst x < mn then fst x else mn) = min (fst x) mn" by (auto simp: min_def)
  have b: "(if mx < fst x then fst x else mx) = max (fst x) mx" by (auto simp: max_def)
  show ?case
    by (simp add: Cons.IH a b)
qed

lemma minMaxRF_all:
  "minMaxRF (fst x) (x # xs) = (Min (fst ` set (x # xs)), Max (fst ` set (x # xs)))"
proof -
  have "fold min (map fst (x # xs)) (fst x) = fold min (map fst xs) (fst x)" by simp
  moreover have "fold max (map fst (x # xs)) (fst x) = fold max (map fst xs) (fst x)" by simp
  ultimately show ?thesis
    unfolding minMaxRF_def minMaxRF_fold Min_scores_fold Max_scores_fold by simp
qed

text \<open>
  C4. A non-empty score list whose least score equals its greatest score (every
  one-element list is one) comes back unchanged: \<^verbatim>\<open>ReadRandomJungleScores\<close> and
  \<^verbatim>\<open>RunReliefF\<close> write the warning to \<^verbatim>\<open>cerr\<close>, store the list as it was read, and
  return \<^verbatim>\<open>true\<close>, so the run goes on.
\<close>

theorem degenerate_normalization_unchanged:
  assumes "xs \<noteq> []" and "Min (fst ` set xs) = Max (fst ` set xs)"
  shows "ReadRandomJungleScores (Some (map Some xs)) st
           = (True, st\<lparr>cerr := cerr st @ [WARN_RJMinMaxSame], rjScores := xs\<rparr>)
     \<and> (randomJungle E (dataset st) = Some (map Some xs) \<longrightarrow>
          RunRandomJungle E st
            = (True, st\<lparr>cerr := cerr st @ [WARN_RJMinMaxSame], rjScores := xs\<rparr>))
     \<and> (reliefF E (reliefCall st) (dataset st) = xs \<longrightarrow>
          RunReliefF E st
            = Inr (True, st\<lparr>rfScores := xs, cerr := cerr st @ [WARN_RFMinMaxSame]\<rparr>))"
proof -
  have rj: "ReadRandomJungleScores (Some (map Some xs)) st
           = (True, st\<lparr>cerr := cerr st @ [WARN_RJMinMaxSame], rjScores := xs\<rparr>)"
    using assms by (simp add: ReadRandomJungleScores_def readImportanceRows_all)
  have run: "RunRandomJungle E st
            = (True, st\<lparr>cerr := cerr st @ [WARN_RJMinMaxSame], rjScores := xs\<rparr>)"
    if "randomJungle E (dataset st) = Some (map Some xs)"
    using that rj by (simp add: RunRandomJungle_def)
  have rf: "RunReliefF E st
            = Inr (True, st\<lparr>rfScores := xs, cerr := cerr st @ [WARN_RFMinMaxSame]\<rparr>)"
    if e: "reliefF E (reliefCall st) (dataset st) = xs"
  proof -
    obtain x ys where xs: "xs = x # ys" using assms(1) by (cases xs) auto
    have "minMaxRF (fst x) xs = (Min (fst ` set xs), Max (fst ` set xs))"
      unfolding xs by (rule minMaxRF_all)
    then show ?thesis
      using assms(2) e by (simp add: RunReliefF_def xs)
  qed
  from rj run rf show ?thesis by blast
qed

theorem degenerate_normalization_unchanged_witness:
  "[(5, ''a'')] \<noteq> ([] :: EcScores)
   \<and> Min (fst ` set [(5 :: real, ''a'')]) = Max (fst ` set [(5 :: real, ''a'')])
   \<and> RunRandomJungle (table_engines (\<lambda>a. 5) (\<lambda>a. 5)) (fresh_object [''a''] EC_ALL 1 1)
       = (True, (fresh_object [''a''] EC_ALL 1 1)
                  \<lparr>cerr := [WARN_RJMinMaxSame], rjScores := [(5, ''a'')]\<rparr>)
   \<and> Min (fst ` set [(5 :: real, ''a''), (5, ''bb'')]) = Max (fst ` set [(5 :: real, ''a''), (5, ''bb'')])
   \<and> RunReliefF (table_engines (\<lambda>a. 5) (\<lambda>a. 5)) (fresh_object [''a'', ''bb''] EC_ALL 1 1)
       = Inr (True, (fresh_object [''a'', ''bb''] EC_ALL 1 1)
                  \<lparr>rfScores := [(5, ''a''), (5, ''bb'')], cerr := [WARN_RFMinMaxSame]\<rparr>)"
proof -
  let ?E = "table_engines (\<lambda>a. 5) (\<lambda>a. 5)"
  have n1: "[(5, ''a'')] \<noteq> ([] :: EcScores)" by simp
  have m1: "Min (fst ` set [(5 :: real, ''a'')]) = Max (fst ` set [(5 :: real, ''a'')])" by simp
  have n2: "[(5, ''a''), (5, ''bb'')] \<noteq> ([] :: EcScores)" by simp
  have m2: "Min (fst ` set [(5 :: real, ''a''), (5, ''bb'')])
      = Max (fst ` set [(5 :: real, ''a''), (5, ''bb'')])" by simp
  have e1: "randomJungle ?E (dataset (fresh_object [''a''] EC_ALL 1 1))
      = Some (map Some [(5, ''a'')])"
    by (simp add: table_engines_def fresh_object_def)
  have e2: "reliefF ?E (reliefCall (fresh_object [''a'', ''bb''] EC_ALL 1 1))
       (dataset (fresh_object [''a'', ''bb''] EC_ALL 1 1)) = [(5, ''a''), (5, ''bb'')]"
    by (simp add: table_engines_def fresh_object_def)
  have c1: "cerr (fresh_object [''a''] EC_ALL 1 1) = []"
    "cerr (fresh_object [''a'', ''bb''] EC_ALL 1 1) = []"
    by (simp_all add: fresh_object_def)
  from degenerate_normalization_unchanged[OF n1 m1, of "fresh_object [''a''] EC_ALL 1 1" ?E] e1
  have r1: "RunRandomJungle ?E (fresh_object [''a''] EC_ALL 1 1)
       = (True, (fresh_object [''a''] EC_ALL 1 1)
                  \<lparr>cerr := [WARN_RJMinMaxSame], rjScores := [(5, ''a'')]\<rparr>)"
    by (simp add: c1)
  from degenerate_normalization_unchanged[OF n2 m2, of "fresh_object [''a'', ''bb''] EC_ALL 1 1" ?E] e2
  have r2: "RunReliefF ?E (fresh_object [''a'', ''bb''] EC_ALL 1 1)
       = Inr (True, (fresh_object [''a'', ''bb''] EC_ALL 1 1)
                  \<lparr>rfScores := [(5, ''a''), (5, ''bb'')], cerr := [WARN_RFMinMaxSame]\<rparr>)"
    by (simp add: c1)
  from n1 m1 m2 r1 r2 show ?thesis by blast
qed



subsection \<open>Fusion\<close>

lemma distinct_names_sorted:
  assumes "distinct (map snd xs)"
  shows "distinct (map snd (sort_key snd xs))"
proof -
  have "mset (map snd (sort_key snd xs)) = mset (map snd xs)" by simp
  then show ?thesis using assms by (metis mset_eq_imp_distinct_iff)
qed

lemma aligned_names:
  assumes "distinct (map snd xs)" "distinct (map snd ys)" "snd ` set xs = snd ` set ys"
  shows "map snd (sort_key snd xs) = map snd (sort_key snd ys)"
proof (rule sorted_distinct_set_unique)
  show "sorted (map snd (sort_key snd xs))" by (rule sorted_sort_key)
  show "sorted (map snd (sort_key snd ys))" by (rule sorted_sort_key)
  show "distinct (map snd (sort_key snd xs))" by (rule distinct_names_sorted[OF assms(1)])
  show "distinct (map snd (sort_key snd ys))" by (rule distinct_names_sorted[OF assms(2)])
  show "set (map snd (sort_key snd xs)) = set (map snd (sort_key snd ys))"
    using assms(3) by simp
qed

lemma unique_score:
  assumes "distinct (map snd xs)" "(s, a) \<in> set xs" "(t, a) \<in> set xs"
  shows "s = t"
proof -
  have "inj_on snd (set xs)" using assms(1) by (simp add: distinct_map)
  from inj_onD[OF this _ assms(2,3)] show ?thesis by simp
qed

lemma same_length:
  assumes "distinct (map snd xs)" "distinct (map snd ys)" "snd ` set xs = snd ` set ys"
  shows "length xs = length ys"
proof -
  have "length xs = card (set (map snd xs))" using distinct_card[OF assms(1)] by simp
  also have "\<dots> = card (set (map snd ys))" using assms(3) by simp
  also have "\<dots> = length ys" using distinct_card[OF assms(2)] by simp
  finally show ?thesis .
qed

text \<open>
  C1, amended. In mode \<^verbatim>\<open>EC_ALL\<close>, when the two lists hold the same attribute names,
  each name once, \<^verbatim>\<open>ComputeFreeEnergy\<close> sorts both lists ascending by name and returns
  \<^verbatim>\<open>true\<close>; the fused list has the names in that order, and for every attribute \<open>a\<close>
  with main-effect score \<open>sm\<close> and interaction score \<open>si\<close> it holds the entry
  \<open>(si + temperature * sm, a)\<close>, and no other entries.
\<close>

theorem fusion_by_name:
  assumes alg: "algorithmType st = EC_ALL"
    and d1: "distinct (map snd (rjScores st))"
    and d2: "distinct (map snd (rfScores st))"
    and same: "snd ` set (rjScores st) = snd ` set (rfScores st)"
    and res: "st' = snd (ComputeFreeEnergy temperature st)"
  shows "fst (ComputeFreeEnergy temperature st)
     \<and> rjScores st' = std_sort scoresSortAscByName (rjScores st)
     \<and> rfScores st' = std_sort scoresSortAscByName (rfScores st)
     \<and> sorted (map snd (rjScores st'))
     \<and> map snd (rfScores st') = map snd (rjScores st')
     \<and> map snd (freeEnergyScores st') = map snd (rjScores st')
     \<and> (\<forall>a sm si. (sm, a) \<in> set (rjScores st) \<and> (si, a) \<in> set (rfScores st)
            \<longrightarrow> (si + temperature * sm, a) \<in> set (freeEnergyScores st'))
     \<and> (\<forall>p \<in> set (freeEnergyScores st').
            \<exists>sm si. (sm, snd p) \<in> set (rjScores st) \<and> (si, snd p) \<in> set (rfScores st)
              \<and> fst p = si + temperature * sm)"
proof -
  define rj where "rj = sort_key snd (rjScores st)"
  define rf where "rf = sort_key snd (rfScores st)"
  define fe where
    "fe = map (\<lambda>(rjIt, rfIt). (fst rfIt + temperature * fst rjIt, snd rjIt)) (zip rj rf)"
  have len0: "length (rjScores st) = length (rfScores st)" by (rule same_length[OF d1 d2 same])
  have len: "length rj = length rf" using len0 by (simp add: rj_def rf_def)
  have run: "ComputeFreeEnergy temperature st
      = (True, st\<lparr>rjScores := rj, rfScores := rf, freeEnergyScores := fe\<rparr>)"
    using alg len0 by (simp add: ComputeFreeEnergy_def std_sort_name rj_def rf_def fe_def Let_def)
  have st': "st' = st\<lparr>rjScores := rj, rfScores := rf, freeEnergyScores := fe\<rparr>"
    using res run by simp
  have names: "map snd rj = map snd rf"
    unfolding rj_def rf_def by (rule aligned_names[OF d1 d2 same])
  have drf: "distinct (map snd rf)" unfolding rf_def by (rule distinct_names_sorted[OF d2])
  have nth_fe: "fe ! i = (fst (rf ! i) + temperature * fst (rj ! i), snd (rj ! i))"
    if "i < length rj" for i
    using that len by (simp add: fe_def)
  have nth_name: "snd (rf ! i) = snd (rj ! i)" if "i < length rj" for i
  proof -
    have "snd (rf ! i) = map snd rf ! i" using that len by simp
    also have "\<dots> = map snd rj ! i" by (simp only: names)
    also have "\<dots> = snd (rj ! i)" using that by simp
    finally show ?thesis .
  qed
  have lfe: "length fe = length rj" using len by (simp add: fe_def)
  have fe_names: "map snd fe = map snd rj"
    by (rule nth_equalityI) (simp_all add: lfe nth_fe)
  have fwd: "(si + temperature * sm, a) \<in> set fe"
    if m: "(sm, a) \<in> set (rjScores st)" and n: "(si, a) \<in> set (rfScores st)" for a sm si
  proof -
    have "(sm, a) \<in> set rj" using m by (simp add: rj_def)
    then obtain i where i: "i < length rj" and ri: "rj ! i = (sm, a)"
      by (auto simp: in_set_conv_nth)
    have "snd (rf ! i) = a" using nth_name[OF i] ri by simp
    then have "(fst (rf ! i), a) \<in> set rf"
      using i len by (metis nth_mem prod.collapse)
    moreover have "(si, a) \<in> set rf" using n by (simp add: rf_def)
    ultimately have "fst (rf ! i) = si" using unique_score[OF drf] by blast
    then have "fe ! i = (si + temperature * sm, a)" using nth_fe[OF i] ri by simp
    then show ?thesis using i lfe by (metis nth_mem)
  qed
  have bwd: "\<exists>sm si. (sm, snd p) \<in> set (rjScores st) \<and> (si, snd p) \<in> set (rfScores st)
              \<and> fst p = si + temperature * sm"
    if "p \<in> set fe" for p
  proof -
    from that obtain i where i: "i < length rj" and p: "p = fe ! i"
      by (auto simp: in_set_conv_nth lfe)
    have a: "(fst (rj ! i), snd p) \<in> set (rjScores st)"
    proof -
      have "rj ! i \<in> set rj" using i by simp
      then show ?thesis by (simp add: p nth_fe[OF i] rj_def)
    qed
    have b: "(fst (rf ! i), snd p) \<in> set (rfScores st)"
    proof -
      have "rf ! i \<in> set rf" using i len by simp
      moreover have "rf ! i = (fst (rf ! i), snd (rj ! i))" using nth_name[OF i] by (metis prod.collapse)
      ultimately show ?thesis by (simp add: p nth_fe[OF i] rf_def)
    qed
    have "fst p = fst (rf ! i) + temperature * fst (rj ! i)" by (simp add: p nth_fe[OF i])
    with a b show ?thesis by blast
  qed
  have srt: "sorted (map snd rj)" unfolding rj_def by (rule sorted_sort_key)
  show ?thesis
    unfolding st' using run names fe_names fwd bwd srt
    by (simp add: std_sort_name rj_def[symmetric] rf_def[symmetric])
qed

text \<open>The example of the spec: temperature 1, fused scores 0.7 for \<open>x\<close> and 0.9 for \<open>y\<close>.\<close>

theorem fusion_by_name_witness:
  "algorithmType fusion_example = EC_ALL
   \<and> distinct (map snd (rjScores fusion_example))
   \<and> distinct (map snd (rfScores fusion_example))
   \<and> snd ` set (rjScores fusion_example) = snd ` set (rfScores fusion_example)
   \<and> ComputeFreeEnergy 1 fusion_example
       = (True, fusion_example\<lparr>freeEnergyScores := [(7/10, ''x''), (9/10, ''y'')]\<rparr>)
   \<and> (5/10 + 1 * (2/10), ''x'') \<in> set (freeEnergyScores (snd (ComputeFreeEnergy 1 fusion_example)))
   \<and> (1/10 + 1 * (8/10), ''y'') \<in> set (freeEnergyScores (snd (ComputeFreeEnergy 1 fusion_example)))"
proof -
  have a: "algorithmType fusion_example = EC_ALL" by code_simp
  have d1: "distinct (map snd (rjScores fusion_example))" by code_simp
  have d2: "distinct (map snd (rfScores fusion_example))" by code_simp
  have s: "snd ` set (rjScores fusion_example) = snd ` set (rfScores fusion_example)"
    by (simp add: fusion_example_def fresh_object_def)
  have m: "(2/10, ''x'') \<in> set (rjScores fusion_example) \<and> (5/10, ''x'') \<in> set (rfScores fusion_example)
      \<and> (8/10, ''y'') \<in> set (rjScores fusion_example) \<and> (1/10, ''y'') \<in> set (rfScores fusion_example)"
    by (simp add: fusion_example_def fresh_object_def)
  have r: "ComputeFreeEnergy 1 fusion_example
       = (True, fusion_example\<lparr>freeEnergyScores := [(7/10, ''x''), (9/10, ''y'')]\<rparr>)"
    by code_simp
  from fusion_by_name[OF a d1 d2 s refl, of 1] m
  have "(5/10 + 1 * (2/10), ''x'') \<in> set (freeEnergyScores (snd (ComputeFreeEnergy 1 fusion_example)))
   \<and> (1/10 + 1 * (8/10), ''y'') \<in> set (freeEnergyScores (snd (ComputeFreeEnergy 1 fusion_example)))"
    by blast
  with a d1 d2 s r show ?thesis by blast
qed

text \<open>
  Equal size is not enough. The lists below have two entries each and both name \<open>y\<close>,
  with main-effect score 0.8 and interaction score 0.5; the pairing is by position after
  the sort, so the fused score of \<open>y\<close> is 0.1 + 0.8 and not 0.5 + 0.8.
\<close>

theorem fusion_equal_size_counterexample:
  "algorithmType fusion_mismatch = EC_ALL
   \<and> length (rjScores fusion_mismatch) = length (rfScores fusion_mismatch)
   \<and> (8/10, ''y'') \<in> set (rjScores fusion_mismatch)
   \<and> (5/10, ''y'') \<in> set (rfScores fusion_mismatch)
   \<and> fst (ComputeFreeEnergy 1 fusion_mismatch)
   \<and> freeEnergyScores (snd (ComputeFreeEnergy 1 fusion_mismatch))
        = [(7/10, ''x''), (9/10, ''y'')]
   \<and> (5/10 + 1 * (8/10), ''y'') \<notin> set (freeEnergyScores (snd (ComputeFreeEnergy 1 fusion_mismatch)))"
  by code_simp

subsection \<open>What each step leaves alone\<close>

lemma readImportanceRows_parsed:
  "\<exists>a b. readImportanceRows (map Some xs) n mn mx acc = Inr (a, b, acc @ xs)"
proof (induction xs arbitrary: n mn mx acc)
  case Nil
  then show ?case by simp
next
  case (Cons x xs)
  obtain k v where x: "x = (k, v)" by (cases x)
  show ?case
    using Cons.IH[of "Suc n" k k "acc @ [(k, v)]"] Cons.IH[of "Suc n" k mx "acc @ [(k, v)]"]
      Cons.IH[of "Suc n" mn k "acc @ [(k, v)]"] Cons.IH[of "Suc n" mn mx "acc @ [(k, v)]"]
    by (auto simp: x)
qed

lemma ReadRandomJungleScores_frame:
  assumes "ReadRandomJungleScores f st = (b, s)"
  shows "dataset s = dataset st \<and> analysisType s = analysisType st
     \<and> numTargetAttributes s = numTargetAttributes st \<and> algorithmType s = algorithmType st
     \<and> numToRemovePerIteration s = numToRemovePerIteration st
     \<and> ecIterRemovePercent s = ecIterRemovePercent st
     \<and> rfNumToRemovePerIteration s = rfNumToRemovePerIteration st
     \<and> rfScores s = rfScores st \<and> freeEnergyScores s = freeEnergyScores st
     \<and> ecScores s = ecScores st \<and> evaporatedAttributes s = evaporatedAttributes st"
  using assms
  by (auto simp: ReadRandomJungleScores_def Let_def split: option.splits sum.splits if_splits)

lemma RunRandomJungle_frame:
  assumes "RunRandomJungle E st = (b, s)"
  shows "dataset s = dataset st \<and> analysisType s = analysisType st
     \<and> numTargetAttributes s = numTargetAttributes st \<and> algorithmType s = algorithmType st
     \<and> numToRemovePerIteration s = numToRemovePerIteration st
     \<and> ecIterRemovePercent s = ecIterRemovePercent st
     \<and> rfNumToRemovePerIteration s = rfNumToRemovePerIteration st
     \<and> rfScores s = rfScores st \<and> freeEnergyScores s = freeEnergyScores st
     \<and> ecScores s = ecScores st \<and> evaporatedAttributes s = evaporatedAttributes st"
proof -
  obtain b0 s0 where r: "ReadRandomJungleScores (randomJungle E (dataset st)) st = (b0, s0)"
    by (cases "ReadRandomJungleScores (randomJungle E (dataset st)) st")
  from ReadRandomJungleScores_frame[OF r] assms r show ?thesis
    by (auto simp: RunRandomJungle_def Let_def split: if_splits)
qed

lemma RunReliefF_frame:
  assumes "RunReliefF E st = Inr (b, s)"
  shows "dataset s = dataset st \<and> analysisType s = analysisType st
     \<and> numTargetAttributes s = numTargetAttributes st \<and> algorithmType s = algorithmType st
     \<and> numToRemovePerIteration s = numToRemovePerIteration st
     \<and> ecIterRemovePercent s = ecIterRemovePercent st
     \<and> rfNumToRemovePerIteration s = rfNumToRemovePerIteration st
     \<and> rjScores s = rjScores st \<and> freeEnergyScores s = freeEnergyScores st
     \<and> ecScores s = ecScores st \<and> evaporatedAttributes s = evaporatedAttributes st"
  using assms
  by (auto simp: RunReliefF_def Let_def split: list.splits if_splits)

lemma ComputeFreeEnergy_frame:
  assumes "ComputeFreeEnergy t st = (b, s)"
  shows "dataset s = dataset st \<and> analysisType s = analysisType st
     \<and> numTargetAttributes s = numTargetAttributes st \<and> algorithmType s = algorithmType st
     \<and> numToRemovePerIteration s = numToRemovePerIteration st
     \<and> ecIterRemovePercent s = ecIterRemovePercent st
     \<and> rfNumToRemovePerIteration s = rfNumToRemovePerIteration st
     \<and> ecScores s = ecScores st \<and> evaporatedAttributes s = evaporatedAttributes st"
  using assms
  by (auto simp: ComputeFreeEnergy_def Let_def split: EcAlgorithmType.splits if_splits)

lemma removeWorstFrom_frame:
  "removeWorstFrom k i st = Inr s \<Longrightarrow>
     analysisType s = analysisType st
     \<and> numTargetAttributes s = numTargetAttributes st \<and> algorithmType s = algorithmType st
     \<and> numToRemovePerIteration s = numToRemovePerIteration st
     \<and> ecIterRemovePercent s = ecIterRemovePercent st
     \<and> rfNumToRemovePerIteration s = rfNumToRemovePerIteration st
     \<and> rjScores s = rjScores st \<and> rfScores s = rfScores st
     \<and> freeEnergyScores s = freeEnergyScores st
     \<and> ecScores s = ecScores st \<and> cerr s = cerr st"
proof (induction k arbitrary: i st)
  case 0
  then show ?case by simp
next
  case (Suc k)
  from Suc.prems have lt: "i < length (freeEnergyScores st)"
    by (simp split: if_splits)
  let ?st1 = "st\<lparr>evaporatedAttributes := evaporatedAttributes st @ [freeEnergyScores st ! i],
                  dataset := snd (MaskRemoveAttribute (snd (freeEnergyScores st ! i)) (dataset st))\<rparr>"
  from Suc.prems lt have "removeWorstFrom k (Suc i) ?st1 = Inr s" by (simp add: Let_def)
  from Suc.IH[OF this] show ?case by simp
qed

lemma RemoveWorstAttributes_frame:
  assumes "RemoveWorstAttributes n st = Inr (b, s)"
  shows "analysisType s = analysisType st
     \<and> numTargetAttributes s = numTargetAttributes st \<and> algorithmType s = algorithmType st
     \<and> numToRemovePerIteration s = numToRemovePerIteration st
     \<and> ecIterRemovePercent s = ecIterRemovePercent st
     \<and> rfNumToRemovePerIteration s = rfNumToRemovePerIteration st
     \<and> rjScores s = rjScores st \<and> rfScores s = rfScores st
     \<and> ecScores s = ecScores st"
  using assms
  by (auto simp: RemoveWorstAttributes_def Let_def split: sum.splits if_splits
      dest!: removeWorstFrom_frame)

lemma ecScoring_frame:
  assumes "ecScoring E st = Inr (b, s)"
  shows "dataset s = dataset st \<and> analysisType s = analysisType st
     \<and> numTargetAttributes s = numTargetAttributes st \<and> algorithmType s = algorithmType st
     \<and> numToRemovePerIteration s = numToRemovePerIteration st
     \<and> ecIterRemovePercent s = ecIterRemovePercent st
     \<and> rfNumToRemovePerIteration s = rfNumToRemovePerIteration st
     \<and> ecScores s = ecScores st \<and> evaporatedAttributes s = evaporatedAttributes st"
proof -
  define r1 where "r1 = (if algorithmType st = EC_ALL \<or> algorithmType st = EC_RJ
                then RunRandomJungle E st else (True, st))"
  have f1: "dataset (snd r1) = dataset st \<and> analysisType (snd r1) = analysisType st
     \<and> numTargetAttributes (snd r1) = numTargetAttributes st
     \<and> algorithmType (snd r1) = algorithmType st
     \<and> numToRemovePerIteration (snd r1) = numToRemovePerIteration st
     \<and> ecIterRemovePercent (snd r1) = ecIterRemovePercent st
     \<and> rfNumToRemovePerIteration (snd r1) = rfNumToRemovePerIteration st
     \<and> ecScores (snd r1) = ecScores st \<and> evaporatedAttributes (snd r1) = evaporatedAttributes st"
    using RunRandomJungle_frame[of E st "fst (RunRandomJungle E st)" "snd (RunRandomJungle E st)"]
    by (simp add: r1_def)
  show ?thesis
  proof (cases "fst r1")
    case False
    with assms f1 show ?thesis by (auto simp: ecScoring_def Let_def r1_def[symmetric])
  next
    case True
    define q where "q = (if algorithmType st = EC_ALL \<or> algorithmType st = EC_RF
                  then RunReliefF E (snd r1) else Inr (True, snd r1))"
    from assms True obtain r2 where q: "q = Inr r2"
      by (cases q) (auto simp: ecScoring_def Let_def r1_def[symmetric] q_def[symmetric])
    have f2: "dataset (snd r2) = dataset st \<and> analysisType (snd r2) = analysisType st
     \<and> numTargetAttributes (snd r2) = numTargetAttributes st
     \<and> algorithmType (snd r2) = algorithmType st
     \<and> numToRemovePerIteration (snd r2) = numToRemovePerIteration st
     \<and> ecIterRemovePercent (snd r2) = ecIterRemovePercent st
     \<and> rfNumToRemovePerIteration (snd r2) = rfNumToRemovePerIteration st
     \<and> ecScores (snd r2) = ecScores st \<and> evaporatedAttributes (snd r2) = evaporatedAttributes st"
      using q f1 RunReliefF_frame[of E "snd r1" "fst r2" "snd r2"]
      by (auto simp: q_def split: if_splits)
    define r3 where "r3 = ComputeFreeEnergy 1 (snd r2)"
    have f3: "dataset (snd r3) = dataset st \<and> analysisType (snd r3) = analysisType st
     \<and> numTargetAttributes (snd r3) = numTargetAttributes st
     \<and> algorithmType (snd r3) = algorithmType st
     \<and> numToRemovePerIteration (snd r3) = numToRemovePerIteration st
     \<and> ecIterRemovePercent (snd r3) = ecIterRemovePercent st
     \<and> rfNumToRemovePerIteration (snd r3) = rfNumToRemovePerIteration st
     \<and> ecScores (snd r3) = ecScores st \<and> evaporatedAttributes (snd r3) = evaporatedAttributes st"
      using f2 ComputeFreeEnergy_frame[of 1 "snd r2" "fst r3" "snd r3"]
      by (simp add: r3_def)
    from assms True q f2 f3 show ?thesis
      by (auto simp: ecScoring_def Let_def r1_def[symmetric] q_def[symmetric] r3_def[symmetric]
          split: if_splits)
  qed
qed

lemma ecRemoval_frame:
  assumes "ecRemoval E w st = Inr c"
  shows "numTargetAttributes (ctl_state c) = numTargetAttributes st
     \<and> algorithmType (ctl_state c) = algorithmType st
     \<and> ecScores (ctl_state c) = ecScores st"
proof (cases "roundNumToRemove E w st < 1")
  case True
  with assms show ?thesis by (auto simp: ecRemoval_def Let_def)
next
  case False
  show ?thesis
  proof (cases "RemoveWorstAttributes (roundNumToRemove E w st) st")
    case (Inl f)
    with assms False show ?thesis by (simp add: ecRemoval_def Let_def)
  next
    case (Inr r)
    obtain b s where r: "r = (b, s)" by (cases r)
    from RemoveWorstAttributes_frame[of "roundNumToRemove E w st" st b s] Inr r
    have f: "numTargetAttributes s = numTargetAttributes st \<and> algorithmType s = algorithmType st
      \<and> ecScores s = ecScores st" by simp
    from assms False Inr r f show ?thesis
      by (auto simp: ecRemoval_def Let_def split: if_splits)
  qed
qed

lemma ecIteration_frame:
  assumes "ecIteration E w st = Inr c"
  shows "numTargetAttributes (ctl_state c) = numTargetAttributes st
     \<and> algorithmType (ctl_state c) = algorithmType st
     \<and> ecScores (ctl_state c) = ecScores st"
proof (cases "ecScoring E st")
  case (Inl f)
  with assms show ?thesis by (simp add: ecIteration_def)
next
  case (Inr r)
  obtain b s where r: "r = (b, s)" by (cases r)
  from ecScoring_frame[of E st b s] Inr r
  have f: "numTargetAttributes s = numTargetAttributes st \<and> algorithmType s = algorithmType st
      \<and> ecScores s = ecScores st" by simp
  show ?thesis
  proof (cases b)
    case True
    with assms Inr r have "ecRemoval E w s = Inr c" by (simp add: ecIteration_def)
    from ecRemoval_frame[OF this] f show ?thesis by simp
  next
    case False
    with assms Inr r have "c = ReturnFalse s" by (simp add: ecIteration_def)
    with f show ?thesis by simp
  qed
qed

lemma ecLoop_frame:
  "ecLoop fuel E w st = Some (Inr (b, w', s)) \<Longrightarrow>
     numTargetAttributes s = numTargetAttributes st \<and> algorithmType s = algorithmType st
     \<and> ecScores s = ecScores st"
proof (induction fuel arbitrary: w st)
  case 0
  then show ?case by simp
next
  case (Suc fuel)
  show ?case
  proof (cases "numTargetAttributes st < w")
    case False
    with Suc.prems show ?thesis by simp
  next
    case True
    show ?thesis
    proof (cases "ecIteration E w st")
      case (Inl f)
      with Suc.prems True show ?thesis by simp
    next
      case (Inr c)
      note fr = ecIteration_frame[OF Inr]
      show ?thesis
      proof (cases c)
        case (ReturnFalse s1)
        with Suc.prems True Inr fr show ?thesis by auto
      next
        case (Break s1)
        with Suc.prems True Inr fr show ?thesis by auto
      next
        case (Next w1 s1)
        with Suc.prems True Inr have "ecLoop fuel E w1 s1 = Some (Inr (b, w', s))" by simp
        from Suc.IH[OF this] fr Next show ?thesis by simp
      qed
    qed
  qed
qed

subsection \<open>Lists of unequal size\<close>

lemma RunRandomJungle_parsed:
  assumes "randomJungle E (dataset st) = Some (map Some xs)"
  shows "\<exists>s. RunRandomJungle E st = (True, s) \<and> length (rjScores s) = length xs"
proof -
  from readImportanceRows_parsed[of xs 0 0 0 "[]"]
  obtain a b where "readImportanceRows (map Some xs) 0 0 0 [] = Inr (a, b, xs)" by auto
  then show ?thesis
    using assms by (simp add: RunRandomJungle_def ReadRandomJungleScores_def Let_def)
qed

lemma RunReliefF_nonempty:
  assumes "reliefF E (reliefCall st) (dataset st) = ys" "ys \<noteq> []"
  shows "\<exists>s. RunReliefF E st = Inr (True, s) \<and> length (rfScores s) = length ys"
proof -
  obtain y zs where ys: "ys = y # zs" using assms(2) by (cases ys) auto
  show ?thesis
    using assms(1) by (simp add: RunReliefF_def Let_def ys)
qed

lemma ComputeFreeEnergy_unequal:
  assumes "algorithmType st = EC_ALL" "length (rjScores st) \<noteq> length (rfScores st)"
  shows "ComputeFreeEnergy t st =
    (False, st\<lparr>cerr := cerr st @ [ERR_ScoresUnequal (length (rjScores st)) (length (rfScores st))]\<rparr>)"
  using assms by (simp add: ComputeFreeEnergy_def)

lemma ecScoring_unequal:
  assumes alg: "algorithmType st = EC_ALL"
    and rj: "randomJungle E (dataset st) = Some (map Some xs)"
    and rf: "reliefF E (reliefCall st) (dataset st) = ys"
    and ne: "ys \<noteq> []"
    and len: "length xs \<noteq> length ys"
  shows "\<exists>s. ecScoring E st = Inr (False, s)
      \<and> ERR_ScoresUnequal (length xs) (length ys) \<in> set (cerr s)
      \<and> freeEnergyScores s = freeEnergyScores st"
proof -
  from RunRandomJungle_parsed[OF rj] obtain s1
    where r1: "RunRandomJungle E st = (True, s1)" and l1: "length (rjScores s1) = length xs"
    by blast
  note f1 = RunRandomJungle_frame[OF r1]
  have "reliefCall s1 = reliefCall st" using f1 by (simp add: reliefCall_def)
  then have "reliefF E (reliefCall s1) (dataset s1) = ys" using rf f1 by simp
  from RunReliefF_nonempty[OF this ne] obtain s2
    where r2: "RunReliefF E s1 = Inr (True, s2)" and l2: "length (rfScores s2) = length ys"
    by blast
  note f2 = RunReliefF_frame[OF r2]
  have a2: "algorithmType s2 = EC_ALL" using f1 f2 alg by simp
  have ne2: "length (rjScores s2) \<noteq> length (rfScores s2)" using l1 l2 len f2 by simp
  note r3 = ComputeFreeEnergy_unequal[OF a2 ne2, of 1]
  have "ecScoring E st = Inr (False,
      s2\<lparr>cerr := cerr s2 @ [ERR_ScoresUnequal (length (rjScores s2)) (length (rfScores s2))]
                         @ [ERR_ComputeFreeEnergyFailed]\<rparr>)"
    using alg r1 r2 r3 by (simp add: ecScoring_def Let_def)
  moreover have "freeEnergyScores s2 = freeEnergyScores st" using f1 f2 by simp
  ultimately show ?thesis using l1 l2 f2 by simp
qed

lemma ComputeECScores_false_keeps_ecScores:
  assumes "ComputeECScores fuel E st = Some (Inr (False, s))"
  shows "ecScores s = ecScores st"
proof (cases "NumAttributes (dataset st) \<le> numTargetAttributes st")
  case True
  with assms show ?thesis by (auto simp: ComputeECScores_def Let_def)
next
  case False
  show ?thesis
  proof (cases "ecLoop fuel E (NumAttributes (dataset st)) st")
    case None
    with assms False show ?thesis by (simp add: ComputeECScores_def Let_def)
  next
    case (Some res)
    show ?thesis
    proof (cases res)
      case (Inl f)
      with assms False Some show ?thesis by (simp add: ComputeECScores_def Let_def)
    next
      case (Inr r)
      obtain b w s1 where r: "r = (b, w, s1)" by (cases r)
      show ?thesis
      proof (cases b)
        case True
        with assms False Some Inr r have "ecFinish s1 = Inr (False, s)"
          by (simp add: ComputeECScores_def Let_def)
        then show ?thesis by (simp add: ecFinish_def Let_def split: if_splits)
      next
        case nb: False
        with assms False Some Inr r have "s = s1" by (simp add: ComputeECScores_def Let_def)
        with ecLoop_frame[of fuel E "NumAttributes (dataset st)" st b w s1] Some Inr r
        show ?thesis by simp
      qed
    qed
  qed
qed

text \<open>
  C6. In mode \<^verbatim>\<open>EC_ALL\<close>, \<^verbatim>\<open>ComputeFreeEnergy\<close> on lists of different size returns
  \<^verbatim>\<open>false\<close> and changes nothing but \<^verbatim>\<open>cerr\<close>: no fused list is built, and neither list is
  cut or padded. When the engines of a round return lists of different size, the run
  returns \<^verbatim>\<open>false\<close> in that round with the fused list, the EC scores, the evaporated
  attributes and the dataset as they were; and no run that returns \<^verbatim>\<open>false\<close> has written
  the EC scores.
\<close>

theorem unequal_lists_abort_run:
  "(algorithmType st = EC_ALL \<and> length (rjScores st) \<noteq> length (rfScores st) \<longrightarrow>
      ComputeFreeEnergy temperature st =
        (False, st\<lparr>cerr := cerr st
                   @ [ERR_ScoresUnequal (length (rjScores st)) (length (rfScores st))]\<rparr>))
   \<and> (algorithmType st = EC_ALL \<and> numTargetAttributes st < NumAttributes (dataset st)
        \<and> randomJungle E (dataset st) = Some (map Some xs)
        \<and> reliefF E (reliefCall st) (dataset st) = ys \<and> ys \<noteq> []
        \<and> length xs \<noteq> length ys \<longrightarrow>
      (\<exists>s. ComputeECScores (Suc fuel) E st = Some (Inr (False, s))
         \<and> ERR_ScoresUnequal (length xs) (length ys) \<in> set (cerr s)
         \<and> freeEnergyScores s = freeEnergyScores st
         \<and> ecScores s = ecScores st
         \<and> evaporatedAttributes s = evaporatedAttributes st
         \<and> dataset s = dataset st))
   \<and> (\<forall>n s. ComputeECScores n E st = Some (Inr (False, s)) \<longrightarrow> ecScores s = ecScores st)"
proof (intro conjI impI allI)
  assume "algorithmType st = EC_ALL \<and> length (rjScores st) \<noteq> length (rfScores st)"
  then show "ComputeFreeEnergy temperature st =
        (False, st\<lparr>cerr := cerr st
                   @ [ERR_ScoresUnequal (length (rjScores st)) (length (rfScores st))]\<rparr>)"
    by (simp add: ComputeFreeEnergy_unequal)
next
  assume h: "algorithmType st = EC_ALL \<and> numTargetAttributes st < NumAttributes (dataset st)
        \<and> randomJungle E (dataset st) = Some (map Some xs)
        \<and> reliefF E (reliefCall st) (dataset st) = ys \<and> ys \<noteq> []
        \<and> length xs \<noteq> length ys"
  then obtain s where sc: "ecScoring E st = Inr (False, s)"
      and er: "ERR_ScoresUnequal (length xs) (length ys) \<in> set (cerr s)"
      and fe: "freeEnergyScores s = freeEnergyScores st"
    using ecScoring_unequal[of st E xs ys] by blast
  note fr = ecScoring_frame[OF sc]
  have it: "ecIteration E (NumAttributes (dataset st)) st = Inr (ReturnFalse s)"
    using sc by (simp add: ecIteration_def)
  have "ComputeECScores (Suc fuel) E st = Some (Inr (False, s))"
    using h it by (simp add: ComputeECScores_def Let_def not_le[symmetric])
  with er fe fr show "\<exists>s. ComputeECScores (Suc fuel) E st = Some (Inr (False, s))
         \<and> ERR_ScoresUnequal (length xs) (length ys) \<in> set (cerr s)
         \<and> freeEnergyScores s = freeEnergyScores st
         \<and> ecScores s = ecScores st
         \<and> evaporatedAttributes s = evaporatedAttributes st
         \<and> dataset s = dataset st" by simp
next
  fix n s
  assume "ComputeECScores n E st = Some (Inr (False, s))"
  then show "ecScores s = ecScores st" by (rule ComputeECScores_false_keeps_ecScores)
qed

theorem unequal_lists_abort_run_witness:
  "algorithmType (fresh_object five_attributes EC_ALL 2 3) = EC_ALL
   \<and> numTargetAttributes (fresh_object five_attributes EC_ALL 2 3)
       < NumAttributes (dataset (fresh_object five_attributes EC_ALL 2 3))
   \<and> randomJungle short_relief_engines (dataset (fresh_object five_attributes EC_ALL 2 3))
       = Some (map Some [(1, ''a''), (2, ''bb''), (3, ''ccc''), (4, ''dddd''), (5, ''eeeee'')])
   \<and> reliefF short_relief_engines (reliefCall (fresh_object five_attributes EC_ALL 2 3))
         (dataset (fresh_object five_attributes EC_ALL 2 3))
       = [(2, ''bb''), (3, ''ccc''), (4, ''dddd''), (5, ''eeeee'')]
   \<and> ComputeECScores (Suc 0) short_relief_engines (fresh_object five_attributes EC_ALL 2 3)
       = Some (Inr (False, (fresh_object five_attributes EC_ALL 2 3)
           \<lparr>rjScores := [(0, ''a''), (1/4, ''bb''), (1/2, ''ccc''), (3/4, ''dddd''), (1, ''eeeee'')],
            rfScores := [(0, ''bb''), (1/3, ''ccc''), (2/3, ''dddd''), (1, ''eeeee'')],
            cerr := [ERR_ScoresUnequal 5 4, ERR_ComputeFreeEnergyFailed]\<rparr>))
   \<and> (\<exists>s. ComputeECScores (Suc 0) short_relief_engines (fresh_object five_attributes EC_ALL 2 3)
              = Some (Inr (False, s))
          \<and> ecScores s = [] \<and> freeEnergyScores s = [] \<and> evaporatedAttributes s = []
          \<and> dataset s = five_attributes)"
proof -
  let ?st = "fresh_object five_attributes EC_ALL 2 3"
  let ?xs = "[(1 :: real, ''a''), (2, ''bb''), (3, ''ccc''), (4, ''dddd''), (5, ''eeeee'')]"
  let ?ys = "[(2 :: real, ''bb''), (3, ''ccc''), (4, ''dddd''), (5, ''eeeee'')]"
  have a: "algorithmType ?st = EC_ALL" by (simp add: fresh_object_def)
  have t: "numTargetAttributes ?st < NumAttributes (dataset ?st)" by code_simp
  have x: "randomJungle short_relief_engines (dataset ?st) = Some (map Some ?xs)"
    by (simp add: short_relief_engines_def table_engines_def fresh_object_def
        five_attributes_def name_length_def)
  have y: "reliefF short_relief_engines (reliefCall ?st) (dataset ?st) = ?ys"
    by (simp add: short_relief_engines_def table_engines_def fresh_object_def
        five_attributes_def name_length_def)
  have n: "?ys \<noteq> []" "length ?xs \<noteq> length ?ys" by simp_all
  have f: "ecScores ?st = []" "freeEnergyScores ?st = []" "evaporatedAttributes ?st = []"
    "dataset ?st = five_attributes"
    by (simp_all add: fresh_object_def)
  from unequal_lists_abort_run[where st = ?st and E = short_relief_engines and xs = ?xs
      and ys = ?ys and fuel = 0] a t x y n
  obtain s where "ComputeECScores (Suc 0) short_relief_engines ?st = Some (Inr (False, s))"
    "freeEnergyScores s = freeEnergyScores ?st" "ecScores s = ecScores ?st"
    "evaporatedAttributes s = evaporatedAttributes ?st" "dataset s = dataset ?st"
    by blast
  then have ex: "\<exists>s. ComputeECScores (Suc 0) short_relief_engines ?st = Some (Inr (False, s))
          \<and> ecScores s = [] \<and> freeEnergyScores s = [] \<and> evaporatedAttributes s = []
          \<and> dataset s = five_attributes"
    using f by auto
  have r: "ComputeECScores (Suc 0) short_relief_engines ?st
       = Some (Inr (False, ?st
           \<lparr>rjScores := [(0, ''a''), (1/4, ''bb''), (1/2, ''ccc''), (3/4, ''dddd''), (1, ''eeeee'')],
            rfScores := [(0, ''bb''), (1/3, ''ccc''), (2/3, ''dddd''), (1, ''eeeee'')],
            cerr := [ERR_ScoresUnequal 5 4, ERR_ComputeFreeEnergyFailed]\<rparr>))"
    by code_simp
  from a t x y r ex show ?thesis by blast
qed

subsection \<open>The EC scores\<close>

lemma sorted_desc_std_sort:
  "sorted_wrt (\<lambda>p q. fst p \<ge> fst q) (std_sort scoresSortDesc xs)"
proof -
  have "sorted (map (\<lambda>p. - fst p) (sort_key (\<lambda>p. - fst p) xs))" by (rule sorted_sort_key)
  then show ?thesis by (simp add: std_sort_desc sorted_map)
qed

text \<open>
  C8. When \<^verbatim>\<open>ComputeECScores\<close> returns \<^verbatim>\<open>true\<close>, the loop was left with some fused
  list (at the target, or by the \<^verbatim>\<open>break\<close> of a round that removes nothing); the fused
  list of the result is that list sorted descending by score, and the EC scores are its
  first \<^verbatim>\<open>numTargetAttributes\<close> entries, exactly that many.
\<close>

theorem ec_scores_sorted_truncated:
  assumes "ComputeECScores fuel E st = Some (Inr (True, st'))"
  shows "\<exists>w s. ecLoop fuel E (NumAttributes (dataset st)) st = Some (Inr (True, w, s))
       \<and> freeEnergyScores st' = std_sort scoresSortDesc (freeEnergyScores s)
       \<and> mset (freeEnergyScores st') = mset (freeEnergyScores s)
       \<and> sorted_wrt (\<lambda>p q. fst p \<ge> fst q) (freeEnergyScores st')
       \<and> ecScores st' = take (unat (numTargetAttributes st)) (freeEnergyScores st')
       \<and> length (ecScores st') = unat (numTargetAttributes st)"
proof -
  have nle: "\<not> NumAttributes (dataset st) \<le> numTargetAttributes st"
    using assms by (auto simp: ComputeECScores_def Let_def split: if_splits)
  from assms nle obtain r where loop: "ecLoop fuel E (NumAttributes (dataset st)) st = Some (Inr r)"
    and fin: "(if \<not> fst r then Some (Inr (False, snd (snd r))) else Some (ecFinish (snd (snd r))))
               = Some (Inr (True, st'))"
    by (auto simp: ComputeECScores_def Let_def split: option.splits sum.splits)
  obtain b w s where r: "r = (b, w, s)" by (cases r)
  from fin r have b: b and ef: "ecFinish s = Inr (True, st')"
    by (auto split: if_splits)
  from ecLoop_frame[of fuel E "NumAttributes (dataset st)" st b w s] loop r
  have tgt: "numTargetAttributes s = numTargetAttributes st" by simp
  define srt where "srt = std_sort scoresSortDesc (freeEnergyScores s)"
  from ef have len: "unat (numTargetAttributes s) \<le> length srt"
    and st': "st' = s\<lparr>freeEnergyScores := srt, ecScores := take (unat (numTargetAttributes s)) srt\<rparr>"
    by (auto simp: ecFinish_def Let_def srt_def split: if_splits)
  have "mset srt = mset (freeEnergyScores s)" by (simp add: srt_def std_sort_desc)
  moreover have "sorted_wrt (\<lambda>p q. fst p \<ge> fst q) srt"
    unfolding srt_def by (rule sorted_desc_std_sort)
  ultimately show ?thesis
    using loop r b st' len tgt by (simp add: srt_def[symmetric])
qed

theorem ec_scores_sorted_truncated_witness:
  "ComputeECScores 10 (table_engines name_length name_length)
      (fresh_object five_attributes EC_ALL 2 3) = Some (Inr (True, converged_result))
   \<and> ecScores converged_result = [(2, ''eeeee''), (3/2, ''dddd'')]
   \<and> length (ecScores converged_result) = unat (2 :: uint)
   \<and> ComputeECScores 10 (table_engines name_length name_length)
      (fresh_object five_attributes EC_ALL 2 0) = Some (Inr (True, stalled_result))
   \<and> dataset stalled_result = five_attributes
   \<and> length (ecScores stalled_result) = unat (2 :: uint)"
proof -
  have c: "ComputeECScores 10 (table_engines name_length name_length)
      (fresh_object five_attributes EC_ALL 2 3) = Some (Inr (True, converged_result))"
    by code_simp
  have s: "ComputeECScores 10 (table_engines name_length name_length)
      (fresh_object five_attributes EC_ALL 2 0) = Some (Inr (True, stalled_result))"
    by code_simp
  have t: "numTargetAttributes (fresh_object five_attributes EC_ALL 2 3) = 2"
    "numTargetAttributes (fresh_object five_attributes EC_ALL 2 0) = 2"
    by (simp_all add: fresh_object_def)
  from ec_scores_sorted_truncated[OF c] t
  have lc: "length (ecScores converged_result) = unat (2 :: uint)" by auto
  from ec_scores_sorted_truncated[OF s] t
  have ls: "length (ecScores stalled_result) = unat (2 :: uint)" by auto
  have e: "ecScores converged_result = [(2, ''eeeee''), (3/2, ''dddd'')]"
    by (simp add: converged_result_def)
  have d: "dataset stalled_result = five_attributes"
    by (simp add: stalled_result_def five_attributes_def)
  from c s lc ls e d show ?thesis by blast
qed

subsection \<open>The constructor and the target\<close>

text \<open>
  C2, amended. The constructor exits when the target is below 1 or above the number of
  attributes. A target equal to the number of attributes passes the constructor (its
  message asks for "less than or equal"); \<^verbatim>\<open>ComputeECScores\<close> then returns \<^verbatim>\<open>false\<close>
  with an error message before it calls any engine, whatever the engines are, and changes
  nothing else.
\<close>

theorem constructor_target_validation:
  "(ec_num_target vm < 1 \<or> NumAttributes d < ec_num_target vm \<longrightarrow>
      EvaporativeCooling_init to_upper percent alg0 n0 (Some d) vm anaType = Inl (- 1))
   \<and> (1 \<le> ec_num_target vm \<and> ec_num_target vm \<le> NumAttributes d
        \<and> parseAlgorithmSteps to_upper alg0 (ec_algorithm_steps vm) = Inr alg \<longrightarrow>
      (\<exists>obj. EvaporativeCooling_init to_upper percent alg0 n0 (Some d) vm anaType = Inr obj
         \<and> dataset obj = d \<and> numTargetAttributes obj = ec_num_target vm
         \<and> algorithmType obj = alg \<and> cerr obj = []))
   \<and> (\<forall>obj fuel E.
        EvaporativeCooling_init to_upper percent alg0 n0 (Some d) vm anaType = Inr obj
        \<and> ec_num_target vm = NumAttributes d \<longrightarrow>
        ComputeECScores fuel E obj =
          Some (Inr (False,
            obj\<lparr>cerr := [ERR_TooFewAttributes (NumAttributes d) (ec_num_target vm)]\<rparr>)))"
proof (intro conjI impI allI)
  assume "ec_num_target vm < 1 \<or> NumAttributes d < ec_num_target vm"
  then show "EvaporativeCooling_init to_upper percent alg0 n0 (Some d) vm anaType = Inl (- 1)"
    by (auto simp: EvaporativeCooling_init_def)
next
  assume h: "1 \<le> ec_num_target vm \<and> ec_num_target vm \<le> NumAttributes d
        \<and> parseAlgorithmSteps to_upper alg0 (ec_algorithm_steps vm) = Inr alg"
  then have "\<not> ec_num_target vm < 1" "\<not> NumAttributes d < ec_num_target vm"
    by (simp_all only: not_less)
  with h show "\<exists>obj. EvaporativeCooling_init to_upper percent alg0 n0 (Some d) vm anaType = Inr obj
         \<and> dataset obj = d \<and> numTargetAttributes obj = ec_num_target vm
         \<and> algorithmType obj = alg \<and> cerr obj = []"
    by (simp add: EvaporativeCooling_init_def)
next
  fix obj fuel E
  assume h: "EvaporativeCooling_init to_upper percent alg0 n0 (Some d) vm anaType = Inr obj
        \<and> ec_num_target vm = NumAttributes d"
  then have "dataset obj = d \<and> numTargetAttributes obj = ec_num_target vm \<and> cerr obj = []"
    by (auto simp: EvaporativeCooling_init_def split: if_splits sum.splits)
  with h show "ComputeECScores fuel E obj =
          Some (Inr (False,
            obj\<lparr>cerr := [ERR_TooFewAttributes (NumAttributes d) (ec_num_target vm)]\<rparr>))"
    by (simp add: ComputeECScores_def Let_def)
qed

theorem constructor_target_validation_witness:
  "NumAttributes [''a'', ''b''] < ec_num_target large_target_options
   \<and> EvaporativeCooling_init (\<lambda>s. s) (\<lambda>p n. (p * n) div 100) EC_UNDETERMINED 0
        (Some [''a'', ''b'']) large_target_options SNP_ONLY_ANALYSIS = Inl (- 1)
   \<and> ec_num_target equal_target_options = NumAttributes [''a'', ''b'']
   \<and> EvaporativeCooling_init (\<lambda>s. s) (\<lambda>p n. (p * n) div 100) EC_UNDETERMINED 0
        (Some [''a'', ''b'']) equal_target_options SNP_ONLY_ANALYSIS
       = Inr (fresh_object [''a'', ''b''] EC_ALL 2 1)
   \<and> ComputeECScores 10 (table_engines name_length name_length)
        (fresh_object [''a'', ''b''] EC_ALL 2 1)
       = Some (Inr (False, (fresh_object [''a'', ''b''] EC_ALL 2 1)
                             \<lparr>cerr := [ERR_TooFewAttributes 2 2]\<rparr>))"
proof -
  have l: "NumAttributes [''a'', ''b''] < ec_num_target large_target_options" by code_simp
  have e: "ec_num_target equal_target_options = NumAttributes [''a'', ''b'']" by code_simp
  have i: "EvaporativeCooling_init (\<lambda>s. s) (\<lambda>p n. (p * n) div 100) EC_UNDETERMINED 0
        (Some [''a'', ''b'']) equal_target_options SNP_ONLY_ANALYSIS
       = Inr (fresh_object [''a'', ''b''] EC_ALL 2 1)" by code_simp
  have v: "ec_num_target equal_target_options = 2" "NumAttributes [''a'', ''b''] = 2"
    by code_simp+
  note thm1 = constructor_target_validation[of large_target_options "[''a'', ''b'']"
      "\<lambda>s. s" "\<lambda>p n. (p * n) div 100" EC_UNDETERMINED 0 SNP_ONLY_ANALYSIS]
  note thm2 = constructor_target_validation[of equal_target_options "[''a'', ''b'']"
      "\<lambda>s. s" "\<lambda>p n. (p * n) div 100" EC_UNDETERMINED 0 SNP_ONLY_ANALYSIS]
  from thm1 l have a: "EvaporativeCooling_init (\<lambda>s. s) (\<lambda>p n. (p * n) div 100) EC_UNDETERMINED 0
        (Some [''a'', ''b'']) large_target_options SNP_ONLY_ANALYSIS = Inl (- 1)" by blast
  from thm2 i e have "ComputeECScores 10 (table_engines name_length name_length)
        (fresh_object [''a'', ''b''] EC_ALL 2 1)
       = Some (Inr (False, (fresh_object [''a'', ''b''] EC_ALL 2 1)
            \<lparr>cerr := [ERR_TooFewAttributes (NumAttributes [''a'', ''b''])
                        (ec_num_target equal_target_options)]\<rparr>))" by blast
  then have b: "ComputeECScores 10 (table_engines name_length name_length)
        (fresh_object [''a'', ''b''] EC_ALL 2 1)
       = Some (Inr (False, (fresh_object [''a'', ''b''] EC_ALL 2 1)
                             \<lparr>cerr := [ERR_TooFewAttributes 2 2]\<rparr>))" by (simp only: v)
  from l a e i b show ?thesis by blast
qed

text \<open>A target equal to the number of attributes is accepted by the constructor.\<close>

theorem constructor_accepts_equal_target_counterexample:
  "ec_num_target equal_target_options = NumAttributes [''a'', ''b'']
   \<and> EvaporativeCooling_init (\<lambda>s. s) (\<lambda>p n. (p * n) div 100) EC_UNDETERMINED 0
        (Some [''a'', ''b'']) equal_target_options SNP_ONLY_ANALYSIS
       = Inr (fresh_object [''a'', ''b''] EC_ALL 2 1)"
  by code_simp

subsection \<open>Pruning with a request inside the working count\<close>

text \<open>
  While the loop of \<^verbatim>\<open>RemoveWorstAttributes\<close> stays inside the fused list, it appends the
  first entries of the list sorted ascending by score to the evaporated attributes, in that
  order, and masks their names out of the dataset.
\<close>

lemma MaskRemoveAttribute_removeAll: "snd (MaskRemoveAttribute a ds) = removeAll a ds"
  by (simp add: MaskRemoveAttribute_def)

lemma removeWorstFrom_result:
  "i + k \<le> length (freeEnergyScores st) \<Longrightarrow>
   removeWorstFrom k i st =
     Inr (st\<lparr>evaporatedAttributes :=
               evaporatedAttributes st @ take k (drop i (freeEnergyScores st)),
             dataset :=
               foldl (\<lambda>ds worst. removeAll (snd worst) ds) (dataset st)
                 (take k (drop i (freeEnergyScores st)))\<rparr>)"
proof (induction k arbitrary: i st)
  case 0
  then show ?case by simp
next
  case (Suc k)
  let ?fe = "freeEnergyScores st"
  let ?st1 = "st\<lparr>evaporatedAttributes := evaporatedAttributes st @ [?fe ! i],
                  dataset := snd (MaskRemoveAttribute (snd (?fe ! i)) (dataset st))\<rparr>"
  have lt: "i < length ?fe" using Suc.prems by simp
  have "Suc i + k \<le> length (freeEnergyScores ?st1)" using Suc.prems by simp
  note ih = Suc.IH[OF this]
  have tk: "take (Suc k) (drop i ?fe) = ?fe ! i # take k (drop (Suc i) ?fe)"
    using lt by (simp add: Cons_nth_drop_Suc[symmetric])
  show ?case
    using lt ih by (simp add: Let_def tk MaskRemoveAttribute_removeAll)
qed

text \<open>
  A request that does not exceed the number of attributes is adjusted to the least of the
  request and the distance to the target, and the target is kept.
\<close>

lemma numToRemoveAdj_no_wrap:
  assumes r: "numToRemove \<le> NumAttributes (dataset st)"
    and t: "numTargetAttributes st \<le> NumAttributes (dataset st)"
  shows "unat (numToRemoveAdj numToRemove st)
           = min (unat numToRemove)
               (unat (NumAttributes (dataset st)) - unat (numTargetAttributes st))"
    and "numTargetAttributes st \<le> NumAttributes (dataset st) - numToRemoveAdj numToRemove st"
proof -
  let ?n = "NumAttributes (dataset st)"
  let ?t = "numTargetAttributes st"
  have s1: "unat (?n - numToRemove) = unat ?n - unat numToRemove" using r by (rule unat_sub)
  have s2: "unat (?n - ?t) = unat ?n - unat ?t" using t by (rule unat_sub)
  have rn: "unat numToRemove \<le> unat ?n" using r by (simp add: word_le_nat_alt)
  have tn: "unat ?t \<le> unat ?n" using t by (simp add: word_le_nat_alt)
  show "unat (numToRemoveAdj numToRemove st) = min (unat numToRemove) (unat ?n - unat ?t)"
    using rn tn by (auto simp: numToRemoveAdj_def Let_def word_less_nat_alt s1 s2 min_def)
  have le: "numToRemoveAdj numToRemove st \<le> ?n"
    using r t by (auto simp: numToRemoveAdj_def Let_def word_le_nat_alt s2)
  have "unat ?t \<le> unat (?n - numToRemoveAdj numToRemove st)"
    using rn tn unat_sub[OF le]
    by (auto simp: numToRemoveAdj_def Let_def word_less_nat_alt s1 s2 split: if_splits)
  then show "?t \<le> ?n - numToRemoveAdj numToRemove st" by (simp add: word_le_nat_alt)
qed

lemma sorted_asc_std_sort: "sorted (map fst (std_sort scoresSortAsc xs))"
  unfolding std_sort_asc by (rule sorted_sort_key)

lemma RemoveWorstAttributes_result:
  assumes "unat (numToRemoveAdj numToRemove st) \<le> length (freeEnergyScores st)"
  shows "\<exists>msgs. RemoveWorstAttributes numToRemove st =
     Inr (True, st\<lparr>cerr := cerr st @ msgs,
       freeEnergyScores := std_sort scoresSortAsc (freeEnergyScores st),
       evaporatedAttributes :=
         evaporatedAttributes st
           @ take (unat (numToRemoveAdj numToRemove st))
               (std_sort scoresSortAsc (freeEnergyScores st)),
       dataset :=
         foldl (\<lambda>ds worst. removeAll (snd worst) ds) (dataset st)
           (take (unat (numToRemoveAdj numToRemove st))
              (std_sort scoresSortAsc (freeEnergyScores st)))\<rparr>)"
proof -
  define st1 where "st1 = (if NumAttributes (dataset st) - numToRemove < numTargetAttributes st
                 then st\<lparr>cerr := cerr st @ [WARN_Adjusting numToRemove (numTargetAttributes st)]\<rparr>
                 else st)"
  define st2 where "st2 = st1\<lparr>freeEnergyScores := std_sort scoresSortAsc (freeEnergyScores st1)\<rparr>"
  have "0 + unat (numToRemoveAdj numToRemove st) \<le> length (freeEnergyScores st2)"
    using assms by (simp add: st2_def st1_def length_std_sort_asc)
  note r = removeWorstFrom_result[OF this]
  show ?thesis
  proof (cases "NumAttributes (dataset st) - numToRemove < numTargetAttributes st")
    case True
    with r show ?thesis
      by (intro exI[of _ "[WARN_Adjusting numToRemove (numTargetAttributes st)]"])
         (simp add: RemoveWorstAttributes_def Let_def st1_def st2_def)
  next
    case False
    with r show ?thesis
      by (intro exI[of _ "[]"]) (simp add: RemoveWorstAttributes_def Let_def st1_def st2_def)
  qed
qed

lemma masked_names: "foldl (\<lambda>ds a. removeAll a ds) ds zs = filter (\<lambda>a. a \<notin> set zs) ds"
proof (induction zs arbitrary: ds)
  case Nil
  then show ?case by simp
next
  case (Cons z zs)
  have "foldl (\<lambda>ds a. removeAll a ds) ds (z # zs)
      = filter (\<lambda>a. a \<notin> set zs) (removeAll z ds)"
    by (simp add: Cons.IH)
  also have "\<dots> = filter (\<lambda>a. a \<notin> set (z # zs)) ds"
    by (induction ds) auto
  finally show ?case by simp
qed

lemma masked_count:
  assumes "distinct ds" "distinct zs" "set zs \<subseteq> set ds"
  shows "length (foldl (\<lambda>ds a. removeAll a ds) ds zs) = length ds - length zs"
proof -
  have "length (filter (\<lambda>a. a \<notin> set zs) ds) = card (set ds - set zs)"
    using assms(1) by (metis distinct_card distinct_filter set_diff_eq set_filter)
  also have "\<dots> = card (set ds) - card (set zs)"
    using assms(3) by (simp add: card_Diff_subset)
  also have "\<dots> = length ds - length zs"
    using assms(1,2) by (simp add: distinct_card)
  finally show ?thesis by (simp add: masked_names)
qed

text \<open>
  The same for the loop of \<^verbatim>\<open>ComputeECScores\<close>: the working count never falls below the
  target, and a round whose request does not exceed the working count lowers it. With a
  fixed count of at most the target plus one, no request exceeds the working count, and
  the loop ends for every choice of engines.
\<close>

lemma roundNumToRemove_keeps_target:
  assumes "numTargetAttributes st < w"
  shows "numTargetAttributes st \<le> w - roundNumToRemove E w st"
proof (cases "w - requestedNumToRemove E st < numTargetAttributes st")
  case True
  then show ?thesis by (simp add: roundNumToRemove_def Let_def)
next
  case False
  then show ?thesis by (simp add: roundNumToRemove_def Let_def not_less)
qed

lemma roundNumToRemove_no_wrap:
  assumes r: "requestedNumToRemove E st \<le> w" and t: "numTargetAttributes st < w"
  shows "unat (roundNumToRemove E w st)
           = min (unat (requestedNumToRemove E st)) (unat w - unat (numTargetAttributes st))"
    and "unat (w - roundNumToRemove E w st) = unat w - unat (roundNumToRemove E w st)"
proof -
  let ?r = "requestedNumToRemove E st"
  let ?t = "numTargetAttributes st"
  have le: "?t \<le> w" using t by simp
  have s1: "unat (w - ?r) = unat w - unat ?r" using r by (rule unat_sub)
  have s2: "unat (w - ?t) = unat w - unat ?t" using le by (rule unat_sub)
  have rn: "unat ?r \<le> unat w" using r by (simp add: word_le_nat_alt)
  have tn: "unat ?t < unat w" using t by (simp add: word_less_nat_alt)
  show "unat (roundNumToRemove E w st) = min (unat ?r) (unat w - unat ?t)"
    using rn tn by (auto simp: roundNumToRemove_def Let_def word_less_nat_alt s1 s2 min_def)
  have "roundNumToRemove E w st \<le> w"
    using r le by (auto simp: roundNumToRemove_def Let_def word_le_nat_alt s2)
  then show "unat (w - roundNumToRemove E w st) = unat w - unat (roundNumToRemove E w st)"
    by (rule unat_sub)
qed

lemma ecRemoval_config:
  assumes "ecRemoval E w st = Inr c"
  shows "numToRemovePerIteration (ctl_state c) = numToRemovePerIteration st
     \<and> ecIterRemovePercent (ctl_state c) = ecIterRemovePercent st"
proof (cases "roundNumToRemove E w st < 1")
  case True
  with assms show ?thesis by (auto simp: ecRemoval_def Let_def)
next
  case False
  show ?thesis
  proof (cases "RemoveWorstAttributes (roundNumToRemove E w st) st")
    case (Inl f)
    with assms False show ?thesis by (simp add: ecRemoval_def Let_def)
  next
    case (Inr r)
    obtain b s where r: "r = (b, s)" by (cases r)
    from RemoveWorstAttributes_frame[of "roundNumToRemove E w st" st b s] Inr r
    have f: "numToRemovePerIteration s = numToRemovePerIteration st
      \<and> ecIterRemovePercent s = ecIterRemovePercent st" by simp
    from assms False Inr r f show ?thesis
      by (auto simp: ecRemoval_def Let_def split: if_splits)
  qed
qed

lemma ecIteration_step:
  assumes it: "ecIteration E w st = Inr (Next w' s)"
  shows "\<exists>s1. requestedNumToRemove E s1 = requestedNumToRemove E st
      \<and> numTargetAttributes s1 = numTargetAttributes st
      \<and> 1 \<le> roundNumToRemove E w s1 \<and> w' = w - roundNumToRemove E w s1
      \<and> numToRemovePerIteration s = numToRemovePerIteration st
      \<and> ecIterRemovePercent s = ecIterRemovePercent st
      \<and> numTargetAttributes s = numTargetAttributes st"
proof (cases "ecScoring E st")
  case (Inl f)
  with it show ?thesis by (simp add: ecIteration_def)
next
  case (Inr r)
  obtain b s1 where r: "r = (b, s1)" by (cases r)
  note f = ecScoring_frame[of E st b s1]
  from it Inr r have b: b by (auto simp: ecIteration_def split: if_splits)
  with it Inr r have rem: "ecRemoval E w s1 = Inr (Next w' s)" by (simp add: ecIteration_def)
  have req: "requestedNumToRemove E s1 = requestedNumToRemove E st"
    using f Inr r by (auto simp: requestedNumToRemove_def split: option.splits)
  have "roundNumToRemove E w s1 \<noteq> 0"
    using rem by (auto simp: ecRemoval_def Let_def split: if_splits)
  then have "0 < unat (roundNumToRemove E w s1)" by (simp add: unat_gt_0)
  then have ge: "1 \<le> roundNumToRemove E w s1" by (simp add: word_le_nat_alt)
  have w': "w' = w - roundNumToRemove E w s1"
    using rem by (auto simp: ecRemoval_def Let_def split: if_splits sum.splits)
  from ecRemoval_config[OF rem] ecRemoval_frame[OF rem] f Inr r req ge w'
  show ?thesis by auto
qed

lemma working_count_step:
  assumes it: "ecIteration E w st = Inr (Next w' s)"
    and t: "numTargetAttributes st < w"
  shows "numTargetAttributes st \<le> w'"
    and "requestedNumToRemove E st \<le> w \<Longrightarrow> w' < w"
proof -
  from ecIteration_step[OF it] obtain s1
    where req: "requestedNumToRemove E s1 = requestedNumToRemove E st"
      and tg: "numTargetAttributes s1 = numTargetAttributes st"
      and ge: "1 \<le> roundNumToRemove E w s1" and w': "w' = w - roundNumToRemove E w s1"
    by blast
  show "numTargetAttributes st \<le> w'"
    using roundNumToRemove_keeps_target[of s1 w E] t tg w' by simp
  assume "requestedNumToRemove E st \<le> w"
  then have r: "requestedNumToRemove E s1 \<le> w" using req by simp
  have t1: "numTargetAttributes s1 < w" using t tg by simp
  have "0 < unat (roundNumToRemove E w s1)" using ge by (simp add: word_le_nat_alt)
  moreover have "unat (roundNumToRemove E w s1) \<le> unat w"
    using roundNumToRemove_no_wrap(1)[OF r t1] by simp
  ultimately have "unat w' < unat w"
    using roundNumToRemove_no_wrap(2)[OF r t1] w' by simp
  then show "w' < w" by (simp add: word_less_nat_alt)
qed

lemma ecLoop_terminates_fixed_count:
  assumes "ecIterRemovePercent st = None"
    and "unat (numToRemovePerIteration st) \<le> unat (numTargetAttributes st) + 1"
  shows "\<exists>fuel r. ecLoop fuel E w st = Some r"
  using assms
proof (induction "unat w - unat (numTargetAttributes st)" arbitrary: w st rule: less_induct)
  case less
  show ?case
  proof (cases "numTargetAttributes st < w")
    case False
    then have "ecLoop (Suc 0) E w st = Some (Inr (True, w, st))" by simp
    then show ?thesis by blast
  next
    case True
    show ?thesis
    proof (cases "ecIteration E w st")
      case (Inl f)
      with True have "ecLoop (Suc 0) E w st = Some (Inl f)" by simp
      then show ?thesis by blast
    next
      case (Inr c)
      show ?thesis
      proof (cases c)
        case (ReturnFalse s)
        with True Inr have "ecLoop (Suc 0) E w st = Some (Inr (False, w, s))" by simp
        then show ?thesis by blast
      next
        case (Break s)
        with True Inr have "ecLoop (Suc 0) E w st = Some (Inr (True, w, s))" by simp
        then show ?thesis by blast
      next
        case (Next w' s)
        with Inr have it: "ecIteration E w st = Inr (Next w' s)" by simp
        have tw: "unat (numTargetAttributes st) < unat w" using True by (simp add: word_less_nat_alt)
        have "requestedNumToRemove E st = numToRemovePerIteration st"
          using less.prems(1) by (simp add: requestedNumToRemove_def)
        then have "requestedNumToRemove E st \<le> w"
          using less.prems(2) tw by (simp add: word_le_nat_alt)
        from working_count_step[OF it True] this
        have lo: "numTargetAttributes st \<le> w'" and hi: "w' < w" by simp_all
        from ecIteration_step[OF it]
        have cfg: "numToRemovePerIteration s = numToRemovePerIteration st"
          "ecIterRemovePercent s = ecIterRemovePercent st"
          "numTargetAttributes s = numTargetAttributes st" by auto
        have "unat w' - unat (numTargetAttributes s) < unat w - unat (numTargetAttributes st)"
          using lo hi tw cfg by (simp add: word_le_nat_alt word_less_nat_alt)
        from less.hyps[OF this] less.prems cfg
        obtain fuel r where "ecLoop fuel E w' s = Some r" by auto
        with True it have "ecLoop (Suc fuel) E w st = Some r" by simp
        then show ?thesis by blast
      qed
    qed
  qed
qed

subsection \<open>A requested count above the working count\<close>

text \<open>
  The two tests \<^verbatim>\<open>(n - numToRemove) < numTargetAttributes\<close> subtract unsigned numbers.
  When the requested count exceeds \<open>n\<close> the difference wraps around to a large number, the
  test fails, and the count is not adjusted.
\<close>

lemma first_round:
  "ecIteration (table_engines name_length name_length) 5 (fresh_object five_attributes EC_ALL 1 3)
     = Inr (Next 2 after_first_round)"
  by code_simp

lemma second_round:
  "ecIteration (table_engines name_length name_length) 2 after_first_round = Inl OutOfBounds"
  by code_simp

text \<open>
  C3. Pruning adjusts the requested count so that the working count stays at or above the
  target, and evaporates that many entries of lowest fused score, lowest first: so it
  does for a request of 5 with 10 attributes and target 7, which is adjusted to 3. It does
  not for a request above the working count: a request of 11 is not adjusted, the adjusted
  count is 11, and the loop reads past the end of the fused list.
\<close>

theorem clamp_misses_overshoot_example:
  "NumAttributes (dataset ten_fused) = 10 \<and> numTargetAttributes ten_fused = 7
   \<and> numToRemoveAdj 5 ten_fused = 3
   \<and> RemoveWorstAttributes 5 ten_fused =
       Inr (True, ten_fused
         \<lparr>dataset := [''a'', ''c'', ''e'', ''g'', ''h'', ''i'', ''j''],
          freeEnergyScores :=
            [(1/10, ''b''), (2/10, ''f''), (3/10, ''d''), (4/10, ''h''), (5/10, ''i''),
             (6/10, ''g''), (7/10, ''e''), (8/10, ''c''), (9/10, ''a''), (1, ''j'')],
          evaporatedAttributes := [(1/10, ''b''), (2/10, ''f''), (3/10, ''d'')],
          cerr := [WARN_Adjusting 5 7]\<rparr>)
   \<and> numToRemoveAdj 11 ten_fused = 11
   \<and> RemoveWorstAttributes 11 ten_fused = Inl OutOfBounds"
  by code_simp

text \<open>
  C7. The working count is meant never to grow. Five attributes, target 1, three removed per
  round: the first round leaves a working count of 2; in the second round the count to
  remove stays 3, the new working count \<open>2 - 3\<close> is 4294967295, and the removal reads past
  the end of the fused list.
\<close>

theorem working_count_wraps_example:
  "ecIteration (table_engines name_length name_length) 5 (fresh_object five_attributes EC_ALL 1 3)
     = Inr (Next 2 after_first_round)
   \<and> numTargetAttributes after_first_round < 2
   \<and> roundNumToRemove (table_engines name_length name_length) 2 after_first_round = 3
   \<and> 2 - roundNumToRemove (table_engines name_length name_length) 2 after_first_round
       = 4294967295
   \<and> ecIteration (table_engines name_length name_length) 2 after_first_round = Inl OutOfBounds"
proof -
  have "numTargetAttributes after_first_round < 2" by code_simp
  moreover have r: "roundNumToRemove (table_engines name_length name_length) 2 after_first_round = 3"
    by code_simp
  moreover have "2 - roundNumToRemove (table_engines name_length name_length) 2 after_first_round
       = 4294967295" unfolding r by simp
  ultimately show ?thesis using first_round second_round by simp
qed

text \<open>
  C9. Every round is meant to lower the working count or to leave the loop. The second
  round of the same run does neither, and the run as a whole ends in the read past the
  end of the fused list, whatever the fuel.
\<close>

theorem run_ends_out_of_bounds_example:
  "ComputeECScores (Suc (Suc fuel)) (table_engines name_length name_length)
     (fresh_object five_attributes EC_ALL 1 3) = Some (Inl OutOfBounds)"
proof -
  have n: "NumAttributes (dataset (fresh_object five_attributes EC_ALL 1 3)) = 5" by code_simp
  have t: "numTargetAttributes (fresh_object five_attributes EC_ALL 1 3) = 1" by code_simp
  have t2: "numTargetAttributes after_first_round = 1" by code_simp
  have w: "\<not> (5 :: uint) \<le> 1" "(1 :: uint) < 5" "(1 :: uint) < 2"
    by (simp_all add: word_le_nat_alt word_less_nat_alt)
  show ?thesis
    by (simp add: ComputeECScores_def n t t2 w first_round second_round)
qed

end
